theory Spec2Isabelle
  imports Main "HOL-Library.Sublist"
begin

section \<open>Python strings\<close>

text \<open>
  A Python \<^verbatim>\<open>str\<close> is a sequence of Unicode code points, and \<^verbatim>\<open>len\<close>, slicing and the
  regular expressions of \<^verbatim>\<open>re\<close> count code points. A string is therefore a list of
  natural numbers; \<open>T\<close> turns an ASCII literal into such a list.
\<close>

type_synonym codepoint = nat
type_synonym pystr = "codepoint list"

definition T :: "string \<Rightarrow> pystr" where
  "T s = map of_char s"

text \<open>
  The interpreter's Unicode tables are not part of the repository. On ASCII the behaviour
  of \<^verbatim>\<open>str.lower\<close>, of whitespace (\<^verbatim>\<open>str.strip\<close>, the class \<^verbatim>\<open>\s\<close>) and of decimal
  digits (the class \<^verbatim>\<open>\d\<close>, \<^verbatim>\<open>int\<close>) is written out; beyond ASCII it is read from a
  parameter: \<open>lower_of\<close> is \<^verbatim>\<open>str.lower\<close> on a string that has a non-ASCII code point,
  \<open>space_of\<close> says which non-ASCII code points are whitespace, \<open>decimal_of\<close> gives the
  value of a non-ASCII decimal digit.
\<close>

record unicode_tables =
  lower_of :: "pystr \<Rightarrow> pystr"
  space_of :: "codepoint \<Rightarrow> bool"
  decimal_of :: "codepoint \<Rightarrow> nat option"

definition ascii_tables :: unicode_tables where
  "ascii_tables = \<lparr>lower_of = (\<lambda>s. s), space_of = (\<lambda>c. False), decimal_of = (\<lambda>c. None)\<rparr>"

definition is_ascii :: "codepoint \<Rightarrow> bool" where
  "is_ascii c = (c < 128)"

definition ascii_lower :: "codepoint \<Rightarrow> codepoint" where
  "ascii_lower c = (if 65 \<le> c \<and> c \<le> 90 then c + 32 else c)"

definition py_lower :: "unicode_tables \<Rightarrow> pystr \<Rightarrow> pystr" where
  "py_lower U s = (if list_all is_ascii s then map ascii_lower s else lower_of U s)"

definition is_space :: "unicode_tables \<Rightarrow> codepoint \<Rightarrow> bool" where
  "is_space U c =
     (if is_ascii c then (9 \<le> c \<and> c \<le> 13) \<or> (28 \<le> c \<and> c \<le> 32) else space_of U c)"

definition hyphen :: codepoint where
  "hyphen = 45"

definition underscore :: codepoint where
  "underscore = 95"

text \<open>\<^verbatim>\<open>s.strip(chars)\<close> and \<^verbatim>\<open>s.strip()\<close>: drop the code points of a class at both ends.\<close>

definition strip_chars :: "(codepoint \<Rightarrow> bool) \<Rightarrow> pystr \<Rightarrow> pystr" where
  "strip_chars P s = rev (dropWhile P (rev (dropWhile P s)))"

definition py_strip :: "unicode_tables \<Rightarrow> pystr \<Rightarrow> pystr" where
  "py_strip U s = strip_chars (is_space U) s"

text \<open>
  \<^verbatim>\<open>re.sub(r"[C]+", rep, s)\<close> for a character class \<open>C\<close>: every maximal run of code
  points of the class is replaced by \<open>rep\<close>.
\<close>

function sub_runs :: "(codepoint \<Rightarrow> bool) \<Rightarrow> pystr \<Rightarrow> pystr \<Rightarrow> pystr" where
  "sub_runs P rep [] = []"
| "sub_runs P rep (c # cs) =
     (if P c then rep @ sub_runs P rep (dropWhile P cs) else c # sub_runs P rep cs)"
  by pat_completeness auto
termination
  by (relation "measure (\<lambda>(P, rep, s). length s)")
     (auto simp: length_dropWhile_le less_Suc_eq_le)

section \<open>The artifact store: slugs\<close>

text \<open>
  \<^verbatim>\<open>
  def slugify(text: str) -> str:
      text = text.lower()
      text = re.sub(r"[\s_]+", "-", text)
      text = re.sub(r"[^a-z0-9-]", "", text)
      text = re.sub(r"-+", "-", text)
      text = text.strip("-")
      return text[:50]
  \<close>
\<close>

definition is_slug_char :: "codepoint \<Rightarrow> bool" where
  "is_slug_char c = ((97 \<le> c \<and> c \<le> 122) \<or> (48 \<le> c \<and> c \<le> 57) \<or> c = hyphen)"

definition slugify :: "unicode_tables \<Rightarrow> pystr \<Rightarrow> pystr" where
  "slugify U text0 =
     (let text1 = py_lower U text0;
          text2 = sub_runs (\<lambda>c. is_space U c \<or> c = underscore) [hyphen] text1;
          text3 = filter is_slug_char text2;
          text4 = sub_runs (\<lambda>c. c = hyphen) [hyphen] text3;
          text5 = strip_chars (\<lambda>c. c = hyphen) text4
      in take 50 text5)"

section \<open>The artifact store: numbered directories\<close>

text \<open>
  The store root \<^verbatim>\<open>specs\<close> is absent (\<open>None\<close>) or a directory, given by its entries in
  the order in which \<^verbatim>\<open>iterdir\<close> yields them. An entry of the root is a plain file or a
  directory with its own files. A file of such a directory is a text file (it carries the
  text that was written to it), a file whose \<^verbatim>\<open>read_text\<close> raises (it carries the text of
  the exception), or a subdirectory (reading and writing it both raise; it carries the text
  of the exception on reading).
\<close>

datatype fnode = Regular pystr | Undecodable pystr | Folder pystr

datatype entry = PlainFile | SpecDir "(pystr \<times> fnode) list"

type_synonym store = "(pystr \<times> entry) list option"

text \<open>
  The paths that the workflows build: \<^verbatim>\<open>Path()\<close>, a directory \<^verbatim>\<open>specs/d\<close> of the root
  and a file \<^verbatim>\<open>specs/d/f\<close> in it; \<open>Outside\<close> is any other path, given by its text, and
  lies outside the store. \<open>path_div\<close> is the operator \<^verbatim>\<open>/\<close> of \<^verbatim>\<open>pathlib\<close> with a file
  name on the right.
\<close>

datatype path = CurDir | SpecPath pystr | SpecFile pystr pystr | Outside pystr

fun str_of_path :: "path \<Rightarrow> pystr" where
  "str_of_path CurDir = T ''.''"
| "str_of_path (SpecPath d) = T ''specs/'' @ d"
| "str_of_path (SpecFile d f) = T ''specs/'' @ d @ T ''/'' @ f"
| "str_of_path (Outside p) = p"

fun path_div :: "path \<Rightarrow> pystr \<Rightarrow> path" where
  "path_div CurDir f = Outside f"
| "path_div (SpecPath d) f = SpecFile d f"
| "path_div (SpecFile d f) g = Outside (str_of_path (SpecFile d f) @ T ''/'' @ g)"
| "path_div (Outside p) g = Outside (p @ T ''/'' @ g)"

fun is_dir :: "pystr \<times> entry \<Rightarrow> bool" where
  "is_dir (name, PlainFile) = False"
| "is_dir (name, SpecDir files) = True"

definition digit_value :: "unicode_tables \<Rightarrow> codepoint \<Rightarrow> nat option" where
  "digit_value U c =
     (if is_ascii c then (if 48 \<le> c \<and> c \<le> 57 then Some (c - 48) else None)
      else decimal_of U c)"

definition is_digit :: "unicode_tables \<Rightarrow> codepoint \<Rightarrow> bool" where
  "is_digit U c = (digit_value U c \<noteq> None)"

text \<open>\<^verbatim>\<open>int(s)\<close> on a non-empty string of decimal digits.\<close>

definition int_of_digits :: "unicode_tables \<Rightarrow> pystr \<Rightarrow> nat" where
  "int_of_digits U ds =
     foldl (\<lambda>n c. 10 * n + (case digit_value U c of Some d \<Rightarrow> d | None \<Rightarrow> 0)) 0 ds"

text \<open>
  \<^verbatim>\<open>match = re.match(r"^(\d+)-", name)\<close>, then \<^verbatim>\<open>int(match.group(1))\<close>: the greedy
  \<^verbatim>\<open>\d+\<close> takes the whole leading run of digits, and no shorter run can be followed by
  a hyphen. \<open>None\<close> is the failed match.
\<close>

definition leading_number :: "unicode_tables \<Rightarrow> pystr \<Rightarrow> nat option" where
  "leading_number U name =
     (let ds = takeWhile (is_digit U) name; rest = dropWhile (is_digit U) name
      in if ds \<noteq> [] \<and> take 1 rest = [hyphen] then Some (int_of_digits U ds) else None)"

text \<open>
  \<^verbatim>\<open>max(xs, key=key)\<close> on a non-empty sequence: the first element whose key no other
  element exceeds.
\<close>

fun max_by :: "('a \<Rightarrow> nat) \<Rightarrow> 'a \<Rightarrow> 'a list \<Rightarrow> 'a" where
  "max_by key best [] = best"
| "max_by key best (x # xs) = max_by key (if key best < key x then x else best) xs"

text \<open>
  \<^verbatim>\<open>
  def get_next_spec_number(specs_dir):
      if not specs_dir.exists():
          return 1
      existing_specs = [d for d in specs_dir.iterdir() if d.is_dir()]
      if not existing_specs:
          return 1
      numbers = []
      for spec_dir in existing_specs:
          match = re.match(r"^(\d+)-", spec_dir.name)
          if match:
              numbers.append(int(match.group(1)))
      return max(numbers) + 1 if numbers else 1
  \<close>
\<close>

definition dir_numbers :: "unicode_tables \<Rightarrow> (pystr \<times> entry) list \<Rightarrow> nat list" where
  "dir_numbers U existing_specs = List.map_filter (\<lambda>spec_dir. leading_number U (fst spec_dir)) existing_specs"

definition get_next_spec_number :: "unicode_tables \<Rightarrow> store \<Rightarrow> nat" where
  "get_next_spec_number U specs_dir =
     (case specs_dir of
        None \<Rightarrow> 1
      | Some entries \<Rightarrow>
          (let existing_specs = filter is_dir entries
           in if existing_specs = [] then 1
              else (case dir_numbers U existing_specs of
                      [] \<Rightarrow> 1
                    | n # ns \<Rightarrow> max_by (\<lambda>k. k) n ns + 1)))"

text \<open>
  \<^verbatim>\<open>
  def find_latest_spec(specs_dir):
      if not specs_dir.exists():
          return None
      existing_specs = [d for d in specs_dir.iterdir() if d.is_dir()]
      if not existing_specs:
          return None
      def get_spec_number(spec_dir):
          match = re.match(r"^(\d+)-", spec_dir.name)
          return int(match.group(1)) if match else 0
      return max(existing_specs, key=get_spec_number)
  \<close>
  The result is the name of the directory inside the root.
\<close>

definition get_spec_number :: "unicode_tables \<Rightarrow> pystr \<times> entry \<Rightarrow> nat" where
  "get_spec_number U spec_dir =
     (case leading_number U (fst spec_dir) of Some n \<Rightarrow> n | None \<Rightarrow> 0)"

definition find_latest_spec :: "unicode_tables \<Rightarrow> store \<Rightarrow> path option" where
  "find_latest_spec U specs_dir =
     (case specs_dir of
        None \<Rightarrow> None
      | Some entries \<Rightarrow>
          (case filter is_dir entries of
             [] \<Rightarrow> None
           | d # ds \<Rightarrow> Some (SpecPath (fst (max_by (get_spec_number U) d ds)))))"

text \<open>
  Exceptions that leave a function of the repository uncaught. \<open>GatewayError\<close> is any
  failure of the model call.
\<close>

datatype exn = FileExistsError | IsADirectoryError | UnicodeEncodeError | GatewayError
  | AttributeError | TypeError | KeyError

text \<open>\<^verbatim>\<open>f"{n:03d}"\<close>: decimal digits, padded with zeros to three places.\<close>

fun decimal :: "nat \<Rightarrow> pystr" where
  "decimal n = (if n < 10 then [48 + n] else decimal (n div 10) @ [48 + n mod 10])"

definition format_03d :: "nat \<Rightarrow> pystr" where
  "format_03d n = replicate (3 - length (decimal n)) 48 @ decimal n"

text \<open>
  \<^verbatim>\<open>
  def create_spec_directory(feature_name, specs_dir):
      specs_dir.mkdir(parents=True, exist_ok=True)
      spec_number = get_next_spec_number(specs_dir)
      slug = slugify(feature_name)
      dir_name = f"{spec_number:03d}-{slug}"
      spec_path = specs_dir / dir_name
      spec_path.mkdir(parents=True, exist_ok=True)
      return spec_path, spec_number
  \<close>
  The result is the returned pair or the exception, with the store afterwards. The second
  \<^verbatim>\<open>mkdir\<close> raises when a plain file has the name already; the first one has created
  the root by then.
\<close>

definition create_spec_directory ::
  "unicode_tables \<Rightarrow> pystr \<Rightarrow> store \<Rightarrow> (exn + path \<times> nat) \<times> store" where
  "create_spec_directory U feature_name specs_dir =
     (let entries = (case specs_dir of None \<Rightarrow> [] | Some es \<Rightarrow> es);
          spec_number = get_next_spec_number U (Some entries);
          slug = slugify U feature_name;
          dir_name = format_03d spec_number @ [hyphen] @ slug
      in case map_of entries dir_name of
           None \<Rightarrow>
             (Inr (SpecPath dir_name, spec_number), Some (entries @ [(dir_name, SpecDir [])]))
         | Some (SpecDir files) \<Rightarrow> (Inr (SpecPath dir_name, spec_number), Some entries)
         | Some PlainFile \<Rightarrow> (Inl FileExistsError, Some entries))"

text \<open>
  \<^verbatim>\<open>
  def save_markdown(content, file_path):
      file_path.parent.mkdir(parents=True, exist_ok=True)
      file_path.write_text(content, encoding="utf-8")
  \<close>
  On a file \<^verbatim>\<open>specs/d/f\<close>: the directory \<open>d\<close> (and the root) are created when absent,
  \<^verbatim>\<open>mkdir\<close> raises when \<open>d\<close> is a plain file, \<^verbatim>\<open>write_text\<close> raises when \<open>f\<close> is a
  subdirectory, and otherwise \<open>f\<close> holds the content afterwards. A write to \<^verbatim>\<open>specs/d\<close>
  itself raises when \<open>d\<close> is a directory and leaves a plain file otherwise. A path outside
  the store leaves the store as it is.

  \<^verbatim>\<open>write_text\<close> opens the file, which empties it, and then encodes the text: a text with
  a surrogate code point cannot be encoded as UTF-8, the exception leaves the file empty.
\<close>

fun assoc_update :: "'k \<Rightarrow> 'v \<Rightarrow> ('k \<times> 'v) list \<Rightarrow> ('k \<times> 'v) list" where
  "assoc_update k v [] = [(k, v)]"
| "assoc_update k v ((k', v') # kvs) =
     (if k' = k then (k, v) # kvs else (k', v') # assoc_update k v kvs)"

definition is_surrogate :: "codepoint \<Rightarrow> bool" where
  "is_surrogate c = (55296 \<le> c \<and> c \<le> 57343)"

definition write_text :: "pystr \<Rightarrow> (exn + unit) \<times> fnode" where
  "write_text content =
     (if list_ex is_surrogate content then (Inl UnicodeEncodeError, Regular [])
      else (Inr (), Regular content))"

fun save_markdown :: "pystr \<Rightarrow> path \<Rightarrow> store \<Rightarrow> (exn + unit) \<times> store" where
  "save_markdown content (SpecFile d f) specs_dir =
     (let entries = (case specs_dir of None \<Rightarrow> [] | Some es \<Rightarrow> es);
          written = write_text content
      in case map_of entries d of
           None \<Rightarrow> (fst written, Some (entries @ [(d, SpecDir [(f, snd written)])]))
         | Some PlainFile \<Rightarrow> (Inl FileExistsError, Some entries)
         | Some (SpecDir files) \<Rightarrow>
             (case map_of files f of
                Some (Folder msg) \<Rightarrow> (Inl IsADirectoryError, Some entries)
              | _ \<Rightarrow>
                (fst written,
                 Some (assoc_update d (SpecDir (assoc_update f (snd written) files)) entries))))"
| "save_markdown content (SpecPath d) specs_dir =
     (let entries = (case specs_dir of None \<Rightarrow> [] | Some es \<Rightarrow> es)
      in case map_of entries d of
           Some (SpecDir files) \<Rightarrow> (Inl IsADirectoryError, Some entries)
         | _ \<Rightarrow> (fst (write_text content), Some (assoc_update d PlainFile entries)))"
| "save_markdown content CurDir specs_dir = (Inl IsADirectoryError, specs_dir)"
| "save_markdown content (Outside p) specs_dir = (fst (write_text content), specs_dir)"

text \<open>
  What \<^verbatim>\<open>p.exists()\<close> sees of a path. The workflows read files \<^verbatim>\<open>specs/d/f\<close> only; any
  other path counts as absent.
\<close>

fun read_path :: "store \<Rightarrow> path \<Rightarrow> fnode option" where
  "read_path specs_dir (SpecFile d f) =
     (case specs_dir of
        None \<Rightarrow> None
      | Some entries \<Rightarrow>
          (case map_of entries d of Some (SpecDir files) \<Rightarrow> map_of files f | _ \<Rightarrow> None))"
| "read_path specs_dir p = None"

text \<open>
  \<^verbatim>\<open>p.read_text(encoding="utf-8")\<close> gives the text of the file with every line end
  (\<^verbatim>\<open>\r\n\<close>, \<^verbatim>\<open>\r\<close>) turned into \<^verbatim>\<open>\n\<close>, or raises; \<open>Inl\<close> carries the text of the
  exception. The flag of \<open>newlines\<close> says that the previous character was \<^verbatim>\<open>\r\<close>.
\<close>

fun newlines :: "bool \<Rightarrow> pystr \<Rightarrow> pystr" where
  "newlines after_cr [] = []"
| "newlines after_cr (c # cs) =
     (if c = 13 then 10 # newlines True cs
      else if c = 10 \<and> after_cr then newlines False cs
      else c # newlines False cs)"

fun read_text :: "fnode \<Rightarrow> pystr + pystr" where
  "read_text (Regular content) = Inr (newlines False content)"
| "read_text (Undecodable e) = Inl e"
| "read_text (Folder e) = Inl e"

section \<open>Pipeline state\<close>

text \<open>
  A workflow state is a \<^verbatim>\<open>TypedDict\<close>; a node returns a dictionary with the fields it
  sets, and the graph merges it into the state. A state is a record, the returned
  dictionary a list of field assignments (\<open>[]\<close> is \<^verbatim>\<open>{}\<close>). The fields of the four states
  carry a prefix (\<open>sp_\<close>, \<open>pl_\<close>, \<open>ta_\<close>, \<open>cl_\<close>), since they share names.
  \<open>truthy_str\<close> is the test \<^verbatim>\<open>if state.get("error")\<close> on a field of type
  \<^verbatim>\<open>str | None\<close>.
\<close>

definition truthy_str :: "pystr option \<Rightarrow> bool" where
  "truthy_str v = (case v of None \<Rightarrow> False | Some m \<Rightarrow> m \<noteq> [])"

text \<open>
  The Model Gateway is a parameter: a function from the arguments of the prompt builder
  to the text of the response, or \<open>None\<close> when the call raises. The wording of the prompts
  is not modelled.
\<close>

datatype json = JNull | JBool bool | JInt int | JStr pystr | JArr "json list"
  | JObj "(pystr \<times> json) list"

record qa_pair =
  qa_id :: json
  qa_question :: json
  qa_answer :: pystr

datatype request = SpecifyRequest pystr | PlanRequest pystr pystr | TasksRequest pystr pystr
  | AnalysisRequest pystr | UpdateRequest pystr "qa_pair list"

type_synonym gateway = "request \<Rightarrow> pystr option"

datatype node = Load | Analyze | Generate | Update | Save | END

section \<open>The Specify pipeline\<close>

record specify_state =
  sp_feature_description :: pystr
  sp_specification :: pystr
  sp_spec_path :: path
  sp_spec_number :: nat
  sp_error :: "pystr option"

datatype specify_field = SP_specification pystr | SP_spec_path path | SP_spec_number nat
  | SP_error "pystr option"

fun specify_set :: "specify_state \<Rightarrow> specify_field \<Rightarrow> specify_state" where
  "specify_set s (SP_specification v) = s\<lparr>sp_specification := v\<rparr>"
| "specify_set s (SP_spec_path v) = s\<lparr>sp_spec_path := v\<rparr>"
| "specify_set s (SP_spec_number v) = s\<lparr>sp_spec_number := v\<rparr>"
| "specify_set s (SP_error v) = s\<lparr>sp_error := v\<rparr>"

definition specify_merge :: "specify_state \<Rightarrow> specify_field list \<Rightarrow> specify_state" where
  "specify_merge s update = foldl specify_set s update"

text \<open>
  \<^verbatim>\<open>
  def analyze_input(state):
      feature_desc = state.get("feature_description", "").strip()
      if not feature_desc:
          return {"error": "Feature description cannot be empty"}
      if len(feature_desc) < 10:
          return {"error": "Feature description is too short (minimum 10 characters)"}
      return {"error": None}
  \<close>
\<close>

definition analyze_input :: "unicode_tables \<Rightarrow> specify_state \<Rightarrow> specify_field list" where
  "analyze_input U state =
     (let feature_desc = py_strip U (sp_feature_description state)
      in if feature_desc = [] then [SP_error (Some (T ''Feature description cannot be empty''))]
         else if length feature_desc < 10
         then [SP_error (Some (T ''Feature description is too short (minimum 10 characters)''))]
         else [SP_error None])"

text \<open>
  \<^verbatim>\<open>
  def generate_specification(state):
      if state.get("error"):
          return {}
      ...
      response = client.messages.create(...)
      specification = response.content[0].text
      return {"specification": specification}
  \<close>
\<close>

definition generate_specification :: "gateway \<Rightarrow> specify_state \<Rightarrow> exn + specify_field list" where
  "generate_specification G state =
     (if truthy_str (sp_error state) then Inr []
      else case G (SpecifyRequest (sp_feature_description state)) of
             None \<Rightarrow> Inl GatewayError
           | Some specification \<Rightarrow> Inr [SP_specification specification])"

text \<open>
  \<^verbatim>\<open>
  def save_specification(state):
      if state.get("error"):
          return {}
      spec_path, spec_number = create_spec_directory(state["feature_description"])
      spec_file = spec_path / "specification.md"
      save_markdown(state["specification"], spec_file)
      return {"spec_path": spec_path, "spec_number": spec_number}
  \<close>
\<close>

definition specify_save_specification ::
  "unicode_tables \<Rightarrow> specify_state \<Rightarrow> store \<Rightarrow> (exn + specify_field list) \<times> store" where
  "specify_save_specification U state specs_dir =
     (if truthy_str (sp_error state) then (Inr [], specs_dir)
      else case create_spec_directory U (sp_feature_description state) specs_dir of
             (Inl e, specs_dir1) \<Rightarrow> (Inl e, specs_dir1)
           | (Inr (spec_path, spec_number), specs_dir1) \<Rightarrow>
               (let spec_file = path_div spec_path (T ''specification.md'')
                in case save_markdown (sp_specification state) spec_file specs_dir1 of
                     (Inl e, specs_dir2) \<Rightarrow> (Inl e, specs_dir2)
                   | (Inr u, specs_dir2) \<Rightarrow>
                       (Inr [SP_spec_path spec_path, SP_spec_number spec_number], specs_dir2)))"

definition specify_should_continue :: "specify_state \<Rightarrow> node" where
  "specify_should_continue state = (if truthy_str (sp_error state) then END else Generate)"

text \<open>
  \<^verbatim>\<open>run_specify\<close>: the graph \<^verbatim>\<open>START -> analyze -> (generate | END)\<close>,
  \<^verbatim>\<open>generate -> save -> END\<close>, from the initial state. A run gives the final state or
  the exception that left the graph, the store afterwards and the nodes that ran.
\<close>

record 'a run =
  outcome :: "exn + 'a"
  store_after :: store
  visited :: "node list"

definition specify_initial :: "pystr \<Rightarrow> specify_state" where
  "specify_initial feature_description =
     \<lparr>sp_feature_description = feature_description, sp_specification = [],
      sp_spec_path = CurDir, sp_spec_number = 0, sp_error = None\<rparr>"

definition run_specify ::
  "unicode_tables \<Rightarrow> gateway \<Rightarrow> pystr \<Rightarrow> store \<Rightarrow> specify_state run" where
  "run_specify U G feature_description specs_dir =
     (let s1 = specify_merge (specify_initial feature_description)
                 (analyze_input U (specify_initial feature_description))
      in case specify_should_continue s1 of
           Generate \<Rightarrow>
             (case generate_specification G s1 of
                Inl e \<Rightarrow> \<lparr>outcome = Inl e, store_after = specs_dir, visited = [Analyze, Generate]\<rparr>
              | Inr u2 \<Rightarrow>
                  (let s2 = specify_merge s1 u2
                   in case specify_save_specification U s2 specs_dir of
                        (Inl e, specs_dir3) \<Rightarrow>
                          \<lparr>outcome = Inl e, store_after = specs_dir3,
                           visited = [Analyze, Generate, Save]\<rparr>
                      | (Inr u3, specs_dir3) \<Rightarrow>
                          \<lparr>outcome = Inr (specify_merge s2 u3), store_after = specs_dir3,
                           visited = [Analyze, Generate, Save]\<rparr>))
         | _ \<Rightarrow> \<lparr>outcome = Inr s1, store_after = specs_dir, visited = [Analyze]\<rparr>)"

section \<open>The Plan pipeline\<close>

record plan_state =
  pl_technical_constraints :: pystr
  pl_spec_path :: "path option"
  pl_specification :: pystr
  pl_plan :: pystr
  pl_plan_file :: "path option"
  pl_error :: "pystr option"

datatype plan_field = PL_spec_path "path option" | PL_specification pystr | PL_plan pystr
  | PL_plan_file "path option" | PL_error "pystr option"

fun plan_set :: "plan_state \<Rightarrow> plan_field \<Rightarrow> plan_state" where
  "plan_set s (PL_spec_path v) = s\<lparr>pl_spec_path := v\<rparr>"
| "plan_set s (PL_specification v) = s\<lparr>pl_specification := v\<rparr>"
| "plan_set s (PL_plan v) = s\<lparr>pl_plan := v\<rparr>"
| "plan_set s (PL_plan_file v) = s\<lparr>pl_plan_file := v\<rparr>"
| "plan_set s (PL_error v) = s\<lparr>pl_error := v\<rparr>"

definition plan_merge :: "plan_state \<Rightarrow> plan_field list \<Rightarrow> plan_state" where
  "plan_merge s update = foldl plan_set s update"

definition msg_no_specifications :: pystr where
  "msg_no_specifications = T ''No specifications found. Run 'acpctl specify' first.''"

definition msg_spec_not_found :: "path \<Rightarrow> pystr" where
  "msg_spec_not_found spec_file =
     T ''Specification file not found at '' @ str_of_path spec_file
       @ T ''. Run 'acpctl specify' first.''"

text \<open>
  \<^verbatim>\<open>
  def load_specification(state):
      spec_path = find_latest_spec()
      if not spec_path:
          return {"error": "No specifications found. Run 'acpctl specify' first."}
      spec_file = spec_path / "specification.md"
      if not spec_file.exists():
          return {"error": f"Specification file not found at {spec_file}. ..."}
      try:
          specification = spec_file.read_text(encoding="utf-8")
      except Exception as e:
          return {"error": f"Failed to read specification: {str(e)}"}
      return {"spec_path": spec_path, "specification": specification, "error": None}
  \<close>
\<close>

definition plan_load_specification ::
  "unicode_tables \<Rightarrow> plan_state \<Rightarrow> store \<Rightarrow> plan_field list" where
  "plan_load_specification U state specs_dir =
     (case find_latest_spec U specs_dir of
        None \<Rightarrow> [PL_error (Some msg_no_specifications)]
      | Some spec_path \<Rightarrow>
          (let spec_file = path_div spec_path (T ''specification.md'')
           in case read_path specs_dir spec_file of
                None \<Rightarrow> [PL_error (Some (msg_spec_not_found spec_file))]
              | Some spec_node \<Rightarrow>
                  (case read_text spec_node of
                     Inl e \<Rightarrow> [PL_error (Some (T ''Failed to read specification: '' @ e))]
                   | Inr specification \<Rightarrow>
                       [PL_spec_path (Some spec_path), PL_specification specification,
                        PL_error None])))"

text \<open>
  \<^verbatim>\<open>
  def generate_plan(state):
      if state.get("error"):
          return {}
      ...
      plan = response.content[0].text
      return {"plan": plan}
  \<close>
\<close>

definition generate_plan :: "gateway \<Rightarrow> plan_state \<Rightarrow> exn + plan_field list" where
  "generate_plan G state =
     (if truthy_str (pl_error state) then Inr []
      else case G (PlanRequest (pl_specification state) (pl_technical_constraints state)) of
             None \<Rightarrow> Inl GatewayError
           | Some plan \<Rightarrow> Inr [PL_plan plan])"

text \<open>
  \<^verbatim>\<open>
  def save_plan(state):
      if state.get("error"):
          return {}
      plan_file = state["spec_path"] / "plan.md"
      save_markdown(state["plan"], plan_file)
      return {"plan_file": plan_file}
  \<close>
  \<^verbatim>\<open>None / "plan.md"\<close> raises a \<^verbatim>\<open>TypeError\<close>.
\<close>

definition save_plan :: "plan_state \<Rightarrow> store \<Rightarrow> (exn + plan_field list) \<times> store" where
  "save_plan state specs_dir =
     (if truthy_str (pl_error state) then (Inr [], specs_dir)
      else case pl_spec_path state of
             None \<Rightarrow> (Inl TypeError, specs_dir)
           | Some spec_path \<Rightarrow>
               (let plan_file = path_div spec_path (T ''plan.md'')
                in case save_markdown (pl_plan state) plan_file specs_dir of
                     (Inl e, specs_dir1) \<Rightarrow> (Inl e, specs_dir1)
                   | (Inr u, specs_dir1) \<Rightarrow> (Inr [PL_plan_file (Some plan_file)], specs_dir1)))"

definition plan_should_continue :: "plan_state \<Rightarrow> node" where
  "plan_should_continue state = (if truthy_str (pl_error state) then END else Generate)"

definition plan_initial :: "pystr \<Rightarrow> plan_state" where
  "plan_initial technical_constraints =
     \<lparr>pl_technical_constraints = technical_constraints, pl_spec_path = None,
      pl_specification = [], pl_plan = [], pl_plan_file = None, pl_error = None\<rparr>"

text \<open>\<^verbatim>\<open>run_plan\<close>: \<^verbatim>\<open>START -> load -> (generate | END)\<close>, \<^verbatim>\<open>generate -> save -> END\<close>.\<close>

definition run_plan :: "unicode_tables \<Rightarrow> gateway \<Rightarrow> pystr \<Rightarrow> store \<Rightarrow> plan_state run" where
  "run_plan U G technical_constraints specs_dir =
     (let s1 = plan_merge (plan_initial technical_constraints)
                 (plan_load_specification U (plan_initial technical_constraints) specs_dir)
      in case plan_should_continue s1 of
           Generate \<Rightarrow>
             (case generate_plan G s1 of
                Inl e \<Rightarrow> \<lparr>outcome = Inl e, store_after = specs_dir, visited = [Load, Generate]\<rparr>
              | Inr u2 \<Rightarrow>
                  (let s2 = plan_merge s1 u2
                   in case save_plan s2 specs_dir of
                        (Inl e, specs_dir3) \<Rightarrow>
                          \<lparr>outcome = Inl e, store_after = specs_dir3,
                           visited = [Load, Generate, Save]\<rparr>
                      | (Inr u3, specs_dir3) \<Rightarrow>
                          \<lparr>outcome = Inr (plan_merge s2 u3), store_after = specs_dir3,
                           visited = [Load, Generate, Save]\<rparr>))
         | _ \<Rightarrow> \<lparr>outcome = Inr s1, store_after = specs_dir, visited = [Load]\<rparr>)"

section \<open>The Tasks pipeline\<close>

record tasks_state =
  ta_spec_path :: "path option"
  ta_specification :: pystr
  ta_plan :: pystr
  ta_tasks :: pystr
  ta_tasks_file :: "path option"
  ta_error :: "pystr option"

datatype tasks_field = TA_spec_path "path option" | TA_specification pystr | TA_plan pystr
  | TA_tasks pystr | TA_tasks_file "path option" | TA_error "pystr option"

fun tasks_set :: "tasks_state \<Rightarrow> tasks_field \<Rightarrow> tasks_state" where
  "tasks_set s (TA_spec_path v) = s\<lparr>ta_spec_path := v\<rparr>"
| "tasks_set s (TA_specification v) = s\<lparr>ta_specification := v\<rparr>"
| "tasks_set s (TA_plan v) = s\<lparr>ta_plan := v\<rparr>"
| "tasks_set s (TA_tasks v) = s\<lparr>ta_tasks := v\<rparr>"
| "tasks_set s (TA_tasks_file v) = s\<lparr>ta_tasks_file := v\<rparr>"
| "tasks_set s (TA_error v) = s\<lparr>ta_error := v\<rparr>"

definition tasks_merge :: "tasks_state \<Rightarrow> tasks_field list \<Rightarrow> tasks_state" where
  "tasks_merge s update = foldl tasks_set s update"

text \<open>
  \<^verbatim>\<open>
  def load_plan(state):
      spec_path = find_latest_spec()
      if not spec_path:
          return {"error": "No specifications found. Run 'acpctl specify' first."}
      spec_file = spec_path / "specification.md"
      plan_file = spec_path / "plan.md"
      if not spec_file.exists():
          return {"error": f"Specification file not found at {spec_file}. ..."}
      if not plan_file.exists():
          return {"error": f"Plan file not found at {plan_file}. Run 'acpctl plan' first."}
      try:
          specification = spec_file.read_text(encoding="utf-8")
          plan = plan_file.read_text(encoding="utf-8")
      except Exception as e:
          return {"error": f"Failed to read specification or plan: {str(e)}"}
      return {"spec_path": spec_path, "specification": specification, "plan": plan,
              "error": None}
  \<close>
\<close>

definition load_plan :: "unicode_tables \<Rightarrow> tasks_state \<Rightarrow> store \<Rightarrow> tasks_field list" where
  "load_plan U state specs_dir =
     (case find_latest_spec U specs_dir of
        None \<Rightarrow> [TA_error (Some msg_no_specifications)]
      | Some spec_path \<Rightarrow>
          (let spec_file = path_div spec_path (T ''specification.md'');
               plan_file = path_div spec_path (T ''plan.md'')
           in case read_path specs_dir spec_file of
                None \<Rightarrow> [TA_error (Some (msg_spec_not_found spec_file))]
              | Some spec_node \<Rightarrow>
                  (case read_path specs_dir plan_file of
                     None \<Rightarrow>
                       [TA_error (Some (T ''Plan file not found at '' @ str_of_path plan_file
                                          @ T ''. Run 'acpctl plan' first.''))]
                   | Some plan_node \<Rightarrow>
                       (case read_text spec_node of
                          Inl e \<Rightarrow>
                            [TA_error (Some (T ''Failed to read specification or plan: '' @ e))]
                        | Inr specification \<Rightarrow>
                            (case read_text plan_node of
                               Inl e \<Rightarrow>
                                 [TA_error
                                    (Some (T ''Failed to read specification or plan: '' @ e))]
                             | Inr plan \<Rightarrow>
                                 [TA_spec_path (Some spec_path), TA_specification specification,
                                  TA_plan plan, TA_error None])))))"

text \<open>
  \<^verbatim>\<open>
  def generate_tasks(state):
      if state.get("error"):
          return {}
      ...
      tasks = response.content[0].text
      return {"tasks": tasks}

  def save_tasks(state):
      if state.get("error"):
          return {}
      tasks_file = state["spec_path"] / "tasks.md"
      save_markdown(state["tasks"], tasks_file)
      return {"tasks_file": tasks_file}
  \<close>
\<close>

definition generate_tasks :: "gateway \<Rightarrow> tasks_state \<Rightarrow> exn + tasks_field list" where
  "generate_tasks G state =
     (if truthy_str (ta_error state) then Inr []
      else case G (TasksRequest (ta_specification state) (ta_plan state)) of
             None \<Rightarrow> Inl GatewayError
           | Some tasks \<Rightarrow> Inr [TA_tasks tasks])"

definition save_tasks :: "tasks_state \<Rightarrow> store \<Rightarrow> (exn + tasks_field list) \<times> store" where
  "save_tasks state specs_dir =
     (if truthy_str (ta_error state) then (Inr [], specs_dir)
      else case ta_spec_path state of
             None \<Rightarrow> (Inl TypeError, specs_dir)
           | Some spec_path \<Rightarrow>
               (let tasks_file = path_div spec_path (T ''tasks.md'')
                in case save_markdown (ta_tasks state) tasks_file specs_dir of
                     (Inl e, specs_dir1) \<Rightarrow> (Inl e, specs_dir1)
                   | (Inr u, specs_dir1) \<Rightarrow> (Inr [TA_tasks_file (Some tasks_file)], specs_dir1)))"

definition tasks_should_continue :: "tasks_state \<Rightarrow> node" where
  "tasks_should_continue state = (if truthy_str (ta_error state) then END else Generate)"

definition tasks_initial :: tasks_state where
  "tasks_initial =
     \<lparr>ta_spec_path = None, ta_specification = [], ta_plan = [], ta_tasks = [],
      ta_tasks_file = None, ta_error = None\<rparr>"

text \<open>\<^verbatim>\<open>run_tasks\<close>: \<^verbatim>\<open>START -> load -> (generate | END)\<close>, \<^verbatim>\<open>generate -> save -> END\<close>.\<close>

definition run_tasks :: "unicode_tables \<Rightarrow> gateway \<Rightarrow> store \<Rightarrow> tasks_state run" where
  "run_tasks U G specs_dir =
     (let s1 = tasks_merge tasks_initial (load_plan U tasks_initial specs_dir)
      in case tasks_should_continue s1 of
           Generate \<Rightarrow>
             (case generate_tasks G s1 of
                Inl e \<Rightarrow> \<lparr>outcome = Inl e, store_after = specs_dir, visited = [Load, Generate]\<rparr>
              | Inr u2 \<Rightarrow>
                  (let s2 = tasks_merge s1 u2
                   in case save_tasks s2 specs_dir of
                        (Inl e, specs_dir3) \<Rightarrow>
                          \<lparr>outcome = Inl e, store_after = specs_dir3,
                           visited = [Load, Generate, Save]\<rparr>
                      | (Inr u3, specs_dir3) \<Rightarrow>
                          \<lparr>outcome = Inr (tasks_merge s2 u3), store_after = specs_dir3,
                           visited = [Load, Generate, Save]\<rparr>))
         | _ \<Rightarrow> \<lparr>outcome = Inr s1, store_after = specs_dir, visited = [Load]\<rparr>)"

section \<open>The Clarify pipeline\<close>

text \<open>
  \<^verbatim>\<open>s.find(sub, start)\<close>: the lowest index from \<open>start\<close> on at which \<open>sub\<close> begins, or
  \<open>-1\<close>; \<^verbatim>\<open>sub in s\<close>; the slice \<^verbatim>\<open>s[start:stop]\<close> for \<open>start \<ge> 0\<close>, where a negative
  \<open>stop\<close> counts from the end.
\<close>

fun find_at :: "pystr \<Rightarrow> pystr \<Rightarrow> nat option" where
  "find_at sub [] = (if sub = [] then Some 0 else None)"
| "find_at sub (c # cs) =
     (if prefix sub (c # cs) then Some 0 else map_option Suc (find_at sub cs))"

definition py_find :: "pystr \<Rightarrow> pystr \<Rightarrow> nat \<Rightarrow> int" where
  "py_find s sub start =
     (if length s < start then - 1
      else case find_at sub (drop start s) of None \<Rightarrow> - 1 | Some k \<Rightarrow> int (start + k))"

definition py_contains :: "pystr \<Rightarrow> pystr \<Rightarrow> bool" where
  "py_contains sub s = (py_find s sub 0 \<noteq> - 1)"

definition py_slice :: "pystr \<Rightarrow> nat \<Rightarrow> int \<Rightarrow> pystr" where
  "py_slice s start stop =
     (let n = int (length s);
          e = (if stop < 0 then max 0 (n + stop) else min stop n)
      in drop start (take (nat e) s))"

definition fence :: pystr where
  "fence = [96, 96, 96]"

definition fence_json :: pystr where
  "fence_json = fence @ T ''json''"

definition fence_markdown :: pystr where
  "fence_markdown = fence @ T ''markdown''"

text \<open>
  \<^verbatim>\<open>
  if "```json" in response_text:
      json_start = response_text.find("```json") + 7
      json_end = response_text.find("```", json_start)
      response_text = response_text[json_start:json_end].strip()
  elif "```" in response_text:
      json_start = response_text.find("```") + 3
      json_end = response_text.find("```", json_start)
      response_text = response_text[json_start:json_end].strip()
  \<close>
\<close>

definition extract_json :: "unicode_tables \<Rightarrow> pystr \<Rightarrow> pystr" where
  "extract_json U response_text =
     (if py_contains fence_json response_text then
        (let json_start = nat (py_find response_text fence_json 0 + 7);
             json_end = py_find response_text fence json_start
         in py_strip U (py_slice response_text json_start json_end))
      else if py_contains fence response_text then
        (let json_start = nat (py_find response_text fence 0 + 3);
             json_end = py_find response_text fence json_start
         in py_strip U (py_slice response_text json_start json_end))
      else response_text)"

text \<open>
  Values decoded from JSON are Python values: \<open>JNull\<close> is \<^verbatim>\<open>None\<close>, \<open>JObj\<close> a \<^verbatim>\<open>dict\<close>
  (its keys distinct), \<open>JArr\<close> a \<^verbatim>\<open>list\<close>. Numbers are integers, as the ids of the
  questions are. \<^verbatim>\<open>json.loads\<close> is a parameter: the decoded value, or the text of the
  \<^verbatim>\<open>JSONDecodeError\<close>.
\<close>

type_synonym json_loads = "pystr \<Rightarrow> pystr + json"

fun truthy_json :: "json \<Rightarrow> bool" where
  "truthy_json JNull = False"
| "truthy_json (JBool b) = b"
| "truthy_json (JInt n) = (n \<noteq> 0)"
| "truthy_json (JStr s) = (s \<noteq> [])"
| "truthy_json (JArr xs) = (xs \<noteq> [])"
| "truthy_json (JObj kvs) = (kvs \<noteq> [])"

type_synonym answer_map = "(int \<times> pystr) list"

definition truthy_answers :: "answer_map option \<Rightarrow> bool" where
  "truthy_answers a = (case a of None \<Rightarrow> False | Some m \<Rightarrow> m \<noteq> [])"

record clarify_state =
  cl_spec_path :: "path option"
  cl_specification :: pystr
  cl_questions :: json
  cl_answers :: "answer_map option"
  cl_updated_spec :: pystr
  cl_error :: "pystr option"

datatype clarify_field = CL_spec_path "path option" | CL_specification pystr
  | CL_questions json | CL_updated_spec pystr | CL_error "pystr option"

fun clarify_set :: "clarify_state \<Rightarrow> clarify_field \<Rightarrow> clarify_state" where
  "clarify_set s (CL_spec_path v) = s\<lparr>cl_spec_path := v\<rparr>"
| "clarify_set s (CL_specification v) = s\<lparr>cl_specification := v\<rparr>"
| "clarify_set s (CL_questions v) = s\<lparr>cl_questions := v\<rparr>"
| "clarify_set s (CL_updated_spec v) = s\<lparr>cl_updated_spec := v\<rparr>"
| "clarify_set s (CL_error v) = s\<lparr>cl_error := v\<rparr>"

definition clarify_merge :: "clarify_state \<Rightarrow> clarify_field list \<Rightarrow> clarify_state" where
  "clarify_merge s update = foldl clarify_set s update"

text \<open>\<^verbatim>\<open>load_specification\<close> of \<^verbatim>\<open>clarify.py\<close>, the same text as in \<^verbatim>\<open>plan.py\<close>.\<close>

definition clarify_load_specification ::
  "unicode_tables \<Rightarrow> clarify_state \<Rightarrow> store \<Rightarrow> clarify_field list" where
  "clarify_load_specification U state specs_dir =
     (case find_latest_spec U specs_dir of
        None \<Rightarrow> [CL_error (Some msg_no_specifications)]
      | Some spec_path \<Rightarrow>
          (let spec_file = path_div spec_path (T ''specification.md'')
           in case read_path specs_dir spec_file of
                None \<Rightarrow> [CL_error (Some (msg_spec_not_found spec_file))]
              | Some spec_node \<Rightarrow>
                  (case read_text spec_node of
                     Inl e \<Rightarrow> [CL_error (Some (T ''Failed to read specification: '' @ e))]
                   | Inr specification \<Rightarrow>
                       [CL_spec_path (Some spec_path), CL_specification specification,
                        CL_error None])))"

text \<open>
  \<^verbatim>\<open>
  def analyze_and_generate_questions(state):
      if state.get("error"):
          return {}
      ...
      response = client.messages.create(...)
      try:
          response_text = response.content[0].text
          (the extraction above)
          questions_data = json.loads(response_text)
          questions = questions_data.get("questions", [])
      except (json.JSONDecodeError, KeyError) as e:
          return {"error": f"Failed to parse questions from Claude response: {str(e)}"}
      return {"questions": questions}
  \<close>
  Only a \<^verbatim>\<open>dict\<close> has \<^verbatim>\<open>get\<close>: on any other decoded value the \<^verbatim>\<open>AttributeError\<close>
  is not caught.
\<close>

definition msg_parse_failed :: "pystr \<Rightarrow> pystr" where
  "msg_parse_failed e = T ''Failed to parse questions from Claude response: '' @ e"

definition analyze_and_generate_questions ::
  "unicode_tables \<Rightarrow> gateway \<Rightarrow> json_loads \<Rightarrow> clarify_state \<Rightarrow> exn + clarify_field list" where
  "analyze_and_generate_questions U G J state =
     (if truthy_str (cl_error state) then Inr []
      else case G (AnalysisRequest (cl_specification state)) of
             None \<Rightarrow> Inl GatewayError
           | Some response_text \<Rightarrow>
               (case J (extract_json U response_text) of
                  Inl e \<Rightarrow> Inr [CL_error (Some (msg_parse_failed e))]
                | Inr (JObj questions_data) \<Rightarrow>
                    Inr [CL_questions
                           (case map_of questions_data (T ''questions'') of
                              Some questions \<Rightarrow> questions
                            | None \<Rightarrow> JArr [])]
                | Inr other \<Rightarrow> Inl AttributeError))"

text \<open>
  What \<^verbatim>\<open>update_specification\<close> does with the questions: \<^verbatim>\<open>for question in ...\<close>
  (a list gives its elements, a string its characters, a dictionary its keys, anything
  else raises), \<^verbatim>\<open>question["id"]\<close> (only a dictionary can be indexed by a string, and
  a missing key raises), and \<^verbatim>\<open>question_id in state["answers"]\<close> on a dictionary with
  integer keys (\<^verbatim>\<open>True\<close> and \<^verbatim>\<open>False\<close> are the integers 1 and 0, a string or
  \<^verbatim>\<open>None\<close> equals no integer, a list or a dictionary cannot be hashed).
\<close>

fun iter_json :: "json \<Rightarrow> exn + json list" where
  "iter_json (JArr xs) = Inr xs"
| "iter_json (JStr s) = Inr (map (\<lambda>c. JStr [c]) s)"
| "iter_json (JObj kvs) = Inr (map (\<lambda>kv. JStr (fst kv)) kvs)"
| "iter_json other = Inl TypeError"

fun subscript :: "json \<Rightarrow> pystr \<Rightarrow> exn + json" where
  "subscript (JObj kvs) k = (case map_of kvs k of Some v \<Rightarrow> Inr v | None \<Rightarrow> Inl KeyError)"
| "subscript other k = Inl TypeError"

fun answer_key :: "json \<Rightarrow> exn + int option" where
  "answer_key (JInt n) = Inr (Some n)"
| "answer_key (JBool b) = Inr (Some (if b then 1 else 0))"
| "answer_key JNull = Inr None"
| "answer_key (JStr s) = Inr None"
| "answer_key (JArr xs) = Inl TypeError"
| "answer_key (JObj kvs) = Inl TypeError"

definition answer_for :: "answer_map \<Rightarrow> int option \<Rightarrow> pystr option" where
  "answer_for answers k = (case k of None \<Rightarrow> None | Some i \<Rightarrow> map_of answers i)"

text \<open>
  \<^verbatim>\<open>
  qa_pairs = []
  for question in state["questions"]:
      question_id = question["id"]
      if question_id in state["answers"]:
          qa_pairs.append({"id": question_id, "question": question["question"],
                           "answer": state["answers"][question_id]})
  \<close>
\<close>

fun build_qa_pairs :: "answer_map \<Rightarrow> json list \<Rightarrow> exn + qa_pair list" where
  "build_qa_pairs answers [] = Inr []"
| "build_qa_pairs answers (question # rest) =
     (case subscript question (T ''id'') of
        Inl e \<Rightarrow> Inl e
      | Inr question_id \<Rightarrow>
          (case answer_key question_id of
             Inl e \<Rightarrow> Inl e
           | Inr k \<Rightarrow>
               (case answer_for answers k of
                  None \<Rightarrow> build_qa_pairs answers rest
                | Some answer \<Rightarrow>
                    (case subscript question (T ''question'') of
                       Inl e \<Rightarrow> Inl e
                     | Inr q \<Rightarrow>
                         (case build_qa_pairs answers rest of
                            Inl e \<Rightarrow> Inl e
                          | Inr qa_pairs \<Rightarrow>
                              Inr (\<lparr>qa_id = question_id, qa_question = q, qa_answer = answer\<rparr>
                                     # qa_pairs))))))"

text \<open>
  \<^verbatim>\<open>
  if updated_spec.startswith("```markdown"):
      updated_spec = updated_spec[11:]
      if updated_spec.endswith("```"):
          updated_spec = updated_spec[:-3]
  elif updated_spec.startswith("```"):
      updated_spec = updated_spec[3:]
      if updated_spec.endswith("```"):
          updated_spec = updated_spec[:-3]
  updated_spec = updated_spec.strip()
  \<close>
\<close>

definition drop_closing_fence :: "pystr \<Rightarrow> pystr" where
  "drop_closing_fence s = (if suffix fence s then take (length s - 3) s else s)"

definition strip_fences :: "unicode_tables \<Rightarrow> pystr \<Rightarrow> pystr" where
  "strip_fences U updated_spec =
     py_strip U
       (if prefix fence_markdown updated_spec then drop_closing_fence (drop 11 updated_spec)
        else if prefix fence updated_spec then drop_closing_fence (drop 3 updated_spec)
        else updated_spec)"

definition msg_no_answers :: pystr where
  "msg_no_answers = T ''No answers provided to update specification''"

text \<open>
  \<^verbatim>\<open>
  def update_specification(state):
      if state.get("error") or not state.get("answers"):
          return {}
      (the loop above)
      if not qa_pairs:
          return {"error": "No answers provided to update specification"}
      ...
      prompt = get_update_prompt(state["specification"], qa_pairs)
      response = client.messages.create(...)
      updated_spec = response.content[0].text
      (the fences above)
      return {"updated_spec": updated_spec}
  \<close>
\<close>

definition update_specification ::
  "unicode_tables \<Rightarrow> gateway \<Rightarrow> clarify_state \<Rightarrow> exn + clarify_field list" where
  "update_specification U G state =
     (if truthy_str (cl_error state) \<or> \<not> truthy_answers (cl_answers state) then Inr []
      else case cl_answers state of
             None \<Rightarrow> Inr []
           | Some answers \<Rightarrow>
               (case iter_json (cl_questions state) of
                  Inl e \<Rightarrow> Inl e
                | Inr questions \<Rightarrow>
                    (case build_qa_pairs answers questions of
                       Inl e \<Rightarrow> Inl e
                     | Inr qa_pairs \<Rightarrow>
                         if qa_pairs = [] then Inr [CL_error (Some msg_no_answers)]
                         else (case G (UpdateRequest (cl_specification state) qa_pairs) of
                                 None \<Rightarrow> Inl GatewayError
                               | Some updated_spec \<Rightarrow>
                                   Inr [CL_updated_spec (strip_fences U updated_spec)]))))"

text \<open>
  \<^verbatim>\<open>
  def save_specification(state):
      if state.get("error"):
          return {}
      spec_file = state["spec_path"] / "specification.md"
      save_markdown(state["updated_spec"], spec_file)
      return {}
  \<close>
\<close>

definition clarify_save_specification ::
  "clarify_state \<Rightarrow> store \<Rightarrow> (exn + clarify_field list) \<times> store" where
  "clarify_save_specification state specs_dir =
     (if truthy_str (cl_error state) then (Inr [], specs_dir)
      else case cl_spec_path state of
             None \<Rightarrow> (Inl TypeError, specs_dir)
           | Some spec_path \<Rightarrow>
               (let spec_file = path_div spec_path (T ''specification.md'')
                in case save_markdown (cl_updated_spec state) spec_file specs_dir of
                     (Inl e, specs_dir1) \<Rightarrow> (Inl e, specs_dir1)
                   | (Inr u, specs_dir1) \<Rightarrow> (Inr [], specs_dir1)))"

text \<open>
  \<^verbatim>\<open>
  def should_continue_after_load(state):
      if state.get("error"):
          return END
      return "analyze"

  def should_continue_after_analyze(state):
      if state.get("error"):
          return END
      if not state.get("questions"):
          return END
      if state.get("answers"):
          return "update"
      return END

  def should_continue_after_update(state):
      if state.get("error"):
          return END
      return "save"
  \<close>
\<close>

definition should_continue_after_load :: "clarify_state \<Rightarrow> node" where
  "should_continue_after_load state = (if truthy_str (cl_error state) then END else Analyze)"

definition should_continue_after_analyze :: "clarify_state \<Rightarrow> node" where
  "should_continue_after_analyze state =
     (if truthy_str (cl_error state) then END
      else if \<not> truthy_json (cl_questions state) then END
      else if truthy_answers (cl_answers state) then Update
      else END)"

definition should_continue_after_update :: "clarify_state \<Rightarrow> node" where
  "should_continue_after_update state = (if truthy_str (cl_error state) then END else Save)"

definition clarify_initial :: "answer_map option \<Rightarrow> clarify_state" where
  "clarify_initial answers =
     \<lparr>cl_spec_path = None, cl_specification = [], cl_questions = JNull, cl_answers = answers,
      cl_updated_spec = [], cl_error = None\<rparr>"

text \<open>
  \<^verbatim>\<open>run_clarify\<close>: \<^verbatim>\<open>START -> load\<close>, then the three conditional edges and
  \<^verbatim>\<open>save -> END\<close>. The part of the graph from each node on is a function of its own.
\<close>

definition clarify_from_update ::
  "unicode_tables \<Rightarrow> gateway \<Rightarrow> clarify_state \<Rightarrow> store \<Rightarrow> node list \<Rightarrow> clarify_state run" where
  "clarify_from_update U G s2 specs_dir trace =
     (case update_specification U G s2 of
        Inl e \<Rightarrow> \<lparr>outcome = Inl e, store_after = specs_dir, visited = trace @ [Update]\<rparr>
      | Inr u3 \<Rightarrow>
          (let s3 = clarify_merge s2 u3
           in case should_continue_after_update s3 of
                Save \<Rightarrow>
                  (case clarify_save_specification s3 specs_dir of
                     (Inl e, specs_dir4) \<Rightarrow>
                       \<lparr>outcome = Inl e, store_after = specs_dir4,
                        visited = trace @ [Update, Save]\<rparr>
                   | (Inr u4, specs_dir4) \<Rightarrow>
                       \<lparr>outcome = Inr (clarify_merge s3 u4), store_after = specs_dir4,
                        visited = trace @ [Update, Save]\<rparr>)
              | _ \<Rightarrow> \<lparr>outcome = Inr s3, store_after = specs_dir, visited = trace @ [Update]\<rparr>))"

definition clarify_from_analyze ::
  "unicode_tables \<Rightarrow> gateway \<Rightarrow> json_loads \<Rightarrow> clarify_state \<Rightarrow> store \<Rightarrow> node list
     \<Rightarrow> clarify_state run" where
  "clarify_from_analyze U G J s1 specs_dir trace =
     (case analyze_and_generate_questions U G J s1 of
        Inl e \<Rightarrow> \<lparr>outcome = Inl e, store_after = specs_dir, visited = trace @ [Analyze]\<rparr>
      | Inr u2 \<Rightarrow>
          (let s2 = clarify_merge s1 u2
           in case should_continue_after_analyze s2 of
                Update \<Rightarrow> clarify_from_update U G s2 specs_dir (trace @ [Analyze])
              | _ \<Rightarrow> \<lparr>outcome = Inr s2, store_after = specs_dir, visited = trace @ [Analyze]\<rparr>))"

definition run_clarify ::
  "unicode_tables \<Rightarrow> gateway \<Rightarrow> json_loads \<Rightarrow> answer_map option \<Rightarrow> store \<Rightarrow> clarify_state run"
  where
  "run_clarify U G J answers specs_dir =
     (let s1 = clarify_merge (clarify_initial answers)
                 (clarify_load_specification U (clarify_initial answers) specs_dir)
      in case should_continue_after_load s1 of
           Analyze \<Rightarrow> clarify_from_analyze U G J s1 specs_dir [Load]
         | _ \<Rightarrow> \<lparr>outcome = Inr s1, store_after = specs_dir, visited = [Load]\<rparr>)"

section \<open>Notions used to state the properties\<close>



text \<open>
  A question of the Clarification Question shape is a dictionary with an integer \<open>id\<close>
  and a \<open>question\<close>; it is answered when its id is a key of the Answer Map.
  \<open>question_id\<close> is the integer that the id of a question equals, if any: in Python
  \<^verbatim>\<open>True\<close> and \<^verbatim>\<open>False\<close> are the integers 1 and 0, and no other value equals an
  integer.
\<close>

fun question_id :: "json \<Rightarrow> int option" where
  "question_id (JObj kvs) =
     (case map_of kvs (T ''id'') of
        Some (JInt i) \<Rightarrow> Some i
      | Some (JBool b) \<Rightarrow> Some (if b then 1 else 0)
      | _ \<Rightarrow> None)"
| "question_id other = None"

fun question_text :: "json \<Rightarrow> json option" where
  "question_text (JObj kvs) = map_of kvs (T ''question'')"
| "question_text other = None"

definition well_formed :: "json \<Rightarrow> bool" where
  "well_formed q = (question_id q \<noteq> None \<and> question_text q \<noteq> None)"

definition answer_of :: "answer_map \<Rightarrow> json \<Rightarrow> pystr option" where
  "answer_of answers q = (case question_id q of None \<Rightarrow> None | Some i \<Rightarrow> map_of answers i)"

definition answered :: "answer_map \<Rightarrow> json \<Rightarrow> bool" where
  "answered answers q = (answer_of answers q \<noteq> None)"

section \<open>Examples\<close>

text \<open>A root with numbered directories, a directory without a number and a plain file.\<close>

definition example_root :: "(pystr \<times> entry) list" where
  "example_root =
     [(T ''001-login'', SpecDir []), (T ''notes'', SpecDir []), (T ''007-export'', SpecDir []),
      (T ''009-readme'', PlainFile), (T ''02-search'', SpecDir [])]"

text \<open>A description of 55 characters whose slug has a hyphen as its 50th character.\<close>

definition long_description :: pystr where
  "long_description = T ''aaaaaaaaa bbbbbbbbb ccccccccc ddddddddd eeeeeeeee fffff''"

text \<open>
  A root whose directories \<^verbatim>\<open>7-a\<close> and \<^verbatim>\<open>007-b\<close> carry the same number, with a plain
  file between them.
\<close>

definition tied_root :: "(pystr \<times> entry) list" where
  "tied_root = [(T ''7-a'', SpecDir []), (T ''readme'', PlainFile), (T ''007-b'', SpecDir [])]"

text \<open>A root with a directory numbered 0 and a directory without a number before it.\<close>

definition unnumbered_root :: "(pystr \<times> entry) list" where
  "unnumbered_root = [(T ''notes'', SpecDir []), (T ''0-draft'', SpecDir [])]"

text \<open>
  Stores, gateways and a decoder for the examples. \<open>example_store\<close> holds one feature
  with its specification.
  \<open>example_loads\<close> agrees with \<^verbatim>\<open>json.loads\<close> on the payloads of the examples and on
  \<^verbatim>\<open>no json here\<close>, the only texts it is applied to.
\<close>

definition example_store :: store where
  "example_store =
     Some [(T ''001-login'', SpecDir [(T ''specification.md'', Regular (T ''# Login''))])]"

definition gateway_down :: gateway where
  "gateway_down = (\<lambda>request. None)"

definition prose_gateway :: gateway where
  "prose_gateway = (\<lambda>request. Some (T ''no json here''))"

definition payload_no_questions :: pystr where
  \<open>payload_no_questions = T ''{"questions":[]}''\<close>



definition empty_object_gateway :: gateway where
  "empty_object_gateway = (\<lambda>request. Some (T ''{}''))"

definition example_loads :: json_loads where
  "example_loads s =
     (if s = payload_no_questions then Inr (JObj [(T ''questions'', JArr [])])
      else if s = T ''{}'' then Inr (JObj [])
      else Inl (T ''Expecting value: line 1 column 1 (char 0)''))"

text \<open>Two questions with the ids 1 and 2, and a state that holds them after the analysis.\<close>

definition question :: "int \<Rightarrow> pystr \<Rightarrow> json" where
  "question i q =
     JObj [(T ''id'', JInt i), (T ''category'', JStr (T ''Functional Scope'')),
           (T ''question'', JStr q), (T ''context'', JStr []), (T ''suggested_answer'', JStr [])]"

definition two_questions :: "json list" where
  "two_questions = [question 1 (T ''Is login required?''), question 2 (T ''Which roles exist?'')]"

definition analyzed_state :: "answer_map option \<Rightarrow> clarify_state" where
  "analyzed_state answers =
     \<lparr>cl_spec_path = Some (SpecPath (T ''001-login'')), cl_specification = T ''# Login'',
      cl_questions = JArr two_questions, cl_answers = answers, cl_updated_spec = [],
      cl_error = None\<rparr>"

section \<open>Properties of slugify\<close>

text \<open>
  Claim C2 (slug shape). The claim: every output of \<open>slugify\<close> is at most 50 characters
  of \<open>[a-z0-9-]\<close> with no leading, trailing or doubled hyphen. The code trims the hyphens
  first and truncates afterwards, so the cut can fall right behind a hyphen: the slug of
  \<open>long_description\<close> is 50 characters long and ends with a hyphen.
\<close>

theorem slugify_truncation_leaves_trailing_hyphen:
  "slugify U long_description = T ''aaaaaaaaa-bbbbbbbbb-ccccccccc-ddddddddd-eeeeeeeee-''
   \<and> last (slugify U long_description) = hyphen"
  by (simp add: slugify_def long_description_def T_def py_lower_def is_ascii_def ascii_lower_def
      is_space_def underscore_def hyphen_def is_slug_char_def strip_chars_def)

text \<open>
  Claim C1 (idempotence). The claim: \<open>slugify (slugify x) = slugify x\<close> for every \<open>x\<close>.
  A second pass trims the hyphen that the truncation of the first pass left behind, so on
  \<open>long_description\<close> the second pass returns a different, shorter slug.
\<close>

theorem slugify_not_idempotent_after_truncation:
  "slugify U (slugify U long_description) = T ''aaaaaaaaa-bbbbbbbbb-ccccccccc-ddddddddd-eeeeeeeee''
   \<and> slugify U (slugify U long_description) \<noteq> slugify U long_description"
  by (simp add: slugify_def long_description_def T_def py_lower_def is_ascii_def ascii_lower_def
      is_space_def underscore_def hyphen_def is_slug_char_def strip_chars_def)

subsection \<open>What does hold of a slug\<close>

text \<open>
  Apart from the hyphen that the cut can leave at the end, the slug has the shape that the
  code aims at, and a slug that does not end with a hyphen is a fixed point.
\<close>

lemma set_sub_runs: "set (sub_runs P rep s) \<subseteq> set s \<union> set rep"
proof (induction P rep s rule: sub_runs.induct)
  case (1 P rep)
  then show ?case by simp
next
  case (2 P rep c cs)
  show ?case
  proof (cases "P c")
    case True
    have "set (dropWhile P cs) \<subseteq> set cs" by (auto dest: set_dropWhileD)
    with 2(1) [OF True] True show ?thesis by auto
  next
    case False
    with 2(2) [OF False] show ?thesis by auto
  qed
qed

lemma dropWhile_start_id: "xs = [] \<or> \<not> P (hd xs) \<Longrightarrow> dropWhile P xs = xs"
  by (cases xs) auto

lemma sub_runs_id: "\<forall>c \<in> set s. \<not> P c \<Longrightarrow> sub_runs P rep s = s"
  by (induction s) simp_all

lemma sub_runs_start:
  "s \<noteq> [] \<Longrightarrow> \<not> P (hd s) \<Longrightarrow> sub_runs P rep s \<noteq> [] \<and> hd (sub_runs P rep s) = hd s"
  by (cases s) simp_all

lemma not_prefix_hh: "ys = [] \<or> hd ys \<noteq> h \<Longrightarrow> \<not> prefix [h, h] (h # ys)"
  by (cases ys) auto

lemma no_double_sub_runs:
  "\<not> sublist [hyphen, hyphen] (sub_runs (\<lambda>c. c = hyphen) [hyphen] s)"
proof (induction "\<lambda>c. c = hyphen" "[hyphen]" s rule: sub_runs.induct)
  case 1
  then show ?case by simp
next
  case (2 c cs)
  show ?case
  proof (cases "c = hyphen")
    case True
    let ?d = "dropWhile (\<lambda>c. c = hyphen) cs"
    let ?ys = "sub_runs (\<lambda>c. c = hyphen) [hyphen] ?d"
    have "?ys = [] \<or> hd ?ys \<noteq> hyphen"
    proof (cases "?d = []")
      case True
      then show ?thesis by (simp del: dropWhile_eq_Nil_conv)
    next
      case False
      then have "hd ?d \<noteq> hyphen" using hd_dropWhile [of "\<lambda>c. c = hyphen" cs] by simp
      then show ?thesis using sub_runs_start [of ?d "\<lambda>c. c = hyphen" "[hyphen]"] False by simp
    qed
    then have "\<not> prefix [hyphen, hyphen] (hyphen # ?ys)" by (rule not_prefix_hh)
    with 2(1) [OF True] True show ?thesis by (simp add: sublist_Cons_right)
  next
    case False
    with 2(2) [OF False] show ?thesis by (simp add: sublist_Cons_right)
  qed
qed

lemma sub_runs_no_double_id:
  "\<not> sublist [hyphen, hyphen] s \<Longrightarrow> sub_runs (\<lambda>c. c = hyphen) [hyphen] s = s"
proof (induction s)
  case Nil
  then show ?case by simp
next
  case (Cons c cs)
  then have n: "\<not> sublist [hyphen, hyphen] cs" and p: "\<not> prefix [hyphen, hyphen] (c # cs)"
    by (simp_all add: sublist_Cons_right)
  show ?case
  proof (cases "c = hyphen")
    case True
    then have "cs = [] \<or> hd cs \<noteq> hyphen" using p by (cases cs) auto
    then have "dropWhile (\<lambda>c. c = hyphen) cs = cs" by (cases cs) auto
    then show ?thesis using True Cons.IH [OF n] by simp
  next
    case False
    then show ?thesis using Cons.IH [OF n] by simp
  qed
qed

lemma strip_chars_sublist: "sublist (strip_chars P s) s"
proof -
  have "prefix (rev (dropWhile P (rev (dropWhile P s)))) (dropWhile P s)"
    by (metis prefix_def rev_append rev_rev_ident takeWhile_dropWhile_id)
  moreover have "suffix (dropWhile P s) s" by (rule suffix_dropWhile)
  ultimately show ?thesis
    unfolding strip_chars_def
    by (meson prefix_imp_sublist sublist_order.order_trans suffix_imp_sublist)
qed

lemma strip_chars_ends:
  assumes "strip_chars P s \<noteq> []"
  shows "\<not> P (hd (strip_chars P s)) \<and> \<not> P (last (strip_chars P s))"
proof -
  let ?t = "dropWhile P s"
  let ?u = "dropWhile P (rev ?t)"
  from assms have u: "?u \<noteq> []" by (simp add: strip_chars_def)
  have t: "?t \<noteq> []"
  proof
    assume "?t = []"
    then have "?u = []" by (simp del: dropWhile_eq_Nil_conv)
    with u show False by simp
  qed
  have "last (rev ?u) = hd ?u" using u by (simp add: last_rev)
  moreover have "\<not> P (hd ?u)" using u by (rule hd_dropWhile)
  moreover have "hd (rev ?u) = hd ?t"
  proof -
    have "prefix (rev ?u) ?t"
      by (metis prefix_def rev_append rev_rev_ident takeWhile_dropWhile_id)
    then obtain zs where "?t = rev ?u @ zs" by (auto simp: prefix_def)
    then show ?thesis using u by (metis hd_append2 rev_is_Nil_conv)
  qed
  moreover have "\<not> P (hd ?t)" using t by (rule hd_dropWhile)
  ultimately show ?thesis by (simp add: strip_chars_def)
qed

lemma strip_chars_id:
  "s = [] \<or> (\<not> P (hd s) \<and> \<not> P (last s)) \<Longrightarrow> strip_chars P s = s"
proof (cases s)
  case Nil
  then show ?thesis by (simp add: strip_chars_def)
next
  case (Cons c cs)
  assume "s = [] \<or> (\<not> P (hd s) \<and> \<not> P (last s))"
  with Cons have a: "\<not> P c" and b: "\<not> P (last s)" by auto
  have "dropWhile P s = s" using a Cons by simp
  moreover have "dropWhile P (rev s) = rev s"
  proof -
    have "hd (rev s) = last s" by (simp add: hd_rev)
    with b have "\<not> P (hd (rev s))" by simp
    moreover have "rev s \<noteq> []" using Cons by simp
    ultimately show ?thesis by (cases "rev s") simp_all
  qed
  ultimately show ?thesis by (simp add: strip_chars_def)
qed

lemma length_sub_runs: "length (sub_runs P [h] s) \<le> length s"
proof (induction P "[h]" s rule: sub_runs.induct)
  case (1 P)
  then show ?case by simp
next
  case (2 P c cs)
  show ?case
  proof (cases "P c")
    case True
    have "length (dropWhile P cs) \<le> length cs" by (rule length_dropWhile_le)
    with 2(1) [OF True] True show ?thesis by simp
  next
    case False
    with 2(2) [OF False] show ?thesis by simp
  qed
qed

lemma length_strip_chars: "length (strip_chars P s) \<le> length s"
  using strip_chars_sublist [of P s] by (rule sublist_length_le)

lemma slug_char_facts:
  "is_slug_char c \<Longrightarrow> is_ascii c \<and> ascii_lower c = c \<and> \<not> is_space U c \<and> c \<noteq> underscore"
  by (auto simp: is_slug_char_def is_ascii_def ascii_lower_def is_space_def underscore_def
      hyphen_def)

text \<open>
  What holds of every slug: its characters are in \<open>[a-z0-9-]\<close>, it has at most 50 of
  them, no two hyphens in a row and no hyphen in front.
\<close>

lemma slugify_shape:
  "list_all is_slug_char (slugify U x) \<and> length (slugify U x) \<le> 50
   \<and> \<not> sublist [hyphen, hyphen] (slugify U x)
   \<and> (slugify U x = [] \<or> hd (slugify U x) \<noteq> hyphen)"
proof -
  define t3 where "t3 = filter is_slug_char
      (sub_runs (\<lambda>c. is_space U c \<or> c = underscore) [hyphen] (py_lower U x))"
  define t4 where "t4 = sub_runs (\<lambda>c. c = hyphen) [hyphen] t3"
  define t5 where "t5 = strip_chars (\<lambda>c. c = hyphen) t4"
  have r: "slugify U x = take 50 t5"
    by (simp add: slugify_def t3_def t4_def t5_def)
  have "set t4 \<subseteq> set t3 \<union> {hyphen}"
    using set_sub_runs [of "\<lambda>c. c = hyphen" "[hyphen]" t3] by (simp add: t4_def)
  moreover have "\<forall>c \<in> set t3. is_slug_char c" by (simp add: t3_def)
  moreover have "is_slug_char hyphen" by (simp add: is_slug_char_def)
  ultimately have c4: "\<forall>c \<in> set t4. is_slug_char c" by auto
  have s5: "sublist t5 t4" unfolding t5_def by (rule strip_chars_sublist)
  then have "set t5 \<subseteq> set t4" by (rule set_mono_sublist)
  moreover have "set (take 50 t5) \<subseteq> set t5" by (rule set_take_subset)
  ultimately have a: "list_all is_slug_char (take 50 t5)"
    using c4 by (auto simp: list_all_iff)
  have "sublist (take 50 t5) t5" by (simp add: take_is_prefix prefix_imp_sublist)
  then have "sublist (take 50 t5) t4" using s5 sublist_order.order_trans by blast
  moreover have "\<not> sublist [hyphen, hyphen] t4" unfolding t4_def by (rule no_double_sub_runs)
  ultimately have b: "\<not> sublist [hyphen, hyphen] (take 50 t5)"
    using sublist_order.order_trans by blast
  have c: "take 50 t5 = [] \<or> hd (take 50 t5) \<noteq> hyphen"
  proof (cases "t5 = []")
    case True
    then show ?thesis by simp
  next
    case False
    then have "hd t5 \<noteq> hyphen"
      using strip_chars_ends [of "\<lambda>c. c = hyphen" t4] by (simp add: t5_def)
    moreover have "hd (take 50 t5) = hd t5" using False by (cases t5) simp_all
    ultimately show ?thesis by simp
  qed
  show ?thesis using a b c r by simp
qed

text \<open>A slug of that shape that does not end with a hyphen is its own slug.\<close>

lemma slugify_clean_fixed:
  assumes "list_all is_slug_char s" "length s \<le> 50" "\<not> sublist [hyphen, hyphen] s"
    "s = [] \<or> (hd s \<noteq> hyphen \<and> last s \<noteq> hyphen)"
  shows "slugify U s = s"
proof -
  have f: "\<forall>c \<in> set s. is_ascii c \<and> ascii_lower c = c \<and> \<not> is_space U c \<and> c \<noteq> underscore"
    using assms(1) slug_char_facts by (auto simp: list_all_iff)
  then have "list_all is_ascii s" by (simp add: list_all_iff)
  moreover have "map ascii_lower s = s" using f by (simp add: map_idI)
  ultimately have 1: "py_lower U s = s" by (simp add: py_lower_def)
  have 2: "sub_runs (\<lambda>c. is_space U c \<or> c = underscore) [hyphen] s = s"
    using f by (intro sub_runs_id) simp
  have 3: "filter is_slug_char s = s" using assms(1) by (simp add: list_all_iff)
  have 4: "sub_runs (\<lambda>c. c = hyphen) [hyphen] s = s"
    using assms(3) by (rule sub_runs_no_double_id)
  have 5: "strip_chars (\<lambda>c. c = hyphen) s = s"
    using assms(4) by (intro strip_chars_id) simp
  show ?thesis using assms(2) by (simp add: slugify_def 1 2 3 4 5)
qed

text \<open>A text of at most 50 characters has a slug that does not end with a hyphen.\<close>

lemma slugify_short_no_trailing:
  assumes "list_all is_ascii s" "length s \<le> 50"
  shows "slugify U s = [] \<or> last (slugify U s) \<noteq> hyphen"
proof -
  define t3 where "t3 = filter is_slug_char
      (sub_runs (\<lambda>c. is_space U c \<or> c = underscore) [hyphen] (py_lower U s))"
  define t4 where "t4 = sub_runs (\<lambda>c. c = hyphen) [hyphen] t3"
  define t5 where "t5 = strip_chars (\<lambda>c. c = hyphen) t4"
  have r: "slugify U s = take 50 t5"
    by (simp add: slugify_def t3_def t4_def t5_def)
  have "length (py_lower U s) = length s" using assms(1) by (simp add: py_lower_def)
  moreover have "length t3 \<le> length (py_lower U s)"
    unfolding t3_def
    using length_sub_runs [of "\<lambda>c. is_space U c \<or> c = underscore" hyphen "py_lower U s"]
      length_filter_le [of is_slug_char
        "sub_runs (\<lambda>c. is_space U c \<or> c = underscore) [hyphen] (py_lower U s)"]
    by linarith
  moreover have "length t4 \<le> length t3" unfolding t4_def by (rule length_sub_runs)
  moreover have "length t5 \<le> length t4" unfolding t5_def by (rule length_strip_chars)
  ultimately have "length t5 \<le> 50" using assms(2) by linarith
  then have "slugify U s = t5" using r by simp
  then show ?thesis
    using strip_chars_ends [of "\<lambda>c. c = hyphen" t4] by (auto simp: t5_def)
qed

text \<open>
  So a second pass changes a slug exactly when the slug ends with a hyphen, which only the
  cut at 50 characters can bring about.
\<close>

lemma slugify_idempotent_iff:
  "slugify U (slugify U x) = slugify U x
     \<longleftrightarrow> slugify U x = [] \<or> last (slugify U x) \<noteq> hyphen"
proof
  assume e: "slugify U (slugify U x) = slugify U x"
  have "list_all is_ascii (slugify U x)"
    using slugify_shape [of U x] slug_char_facts by (auto simp: list_all_iff)
  then have "slugify U (slugify U x) = [] \<or> last (slugify U (slugify U x)) \<noteq> hyphen"
    using slugify_shape [of U x] by (intro slugify_short_no_trailing) simp_all
  then show "slugify U x = [] \<or> last (slugify U x) \<noteq> hyphen" using e by simp
next
  assume "slugify U x = [] \<or> last (slugify U x) \<noteq> hyphen"
  then show "slugify U (slugify U x) = slugify U x"
    using slugify_shape [of U x] by (intro slugify_clean_fixed) auto
qed

section \<open>Properties of the Specify pipeline\<close>

lemma strip_chars_Nil_iff: "strip_chars P s = [] \<longleftrightarrow> list_all P s"
proof
  assume "strip_chars P s = []"
  then have a: "\<forall>x\<in>set (dropWhile P s). P x"
    by (simp add: strip_chars_def dropWhile_eq_Nil_conv)
  have "dropWhile P s = []"
  proof (rule ccontr)
    assume n: "dropWhile P s \<noteq> []"
    then have "\<not> P (hd (dropWhile P s))" by (rule hd_dropWhile)
    moreover have "hd (dropWhile P s) \<in> set (dropWhile P s)" using n by simp
    ultimately show False using a by blast
  qed
  then show "list_all P s" by (simp add: dropWhile_eq_Nil_conv list_all_iff)
next
  assume "list_all P s"
  then have "dropWhile P s = []" by (simp add: dropWhile_eq_Nil_conv list_all_iff)
  then show "strip_chars P s = []" by (simp add: strip_chars_def del: dropWhile_eq_Nil_conv)
qed

text \<open>
  Claim C8 (validation). \<open>analyze_input\<close> sets an error exactly when the description
  consists of whitespace only (the empty description included) or has fewer than 10
  characters once trimmed. It sets the message \<^verbatim>\<open>Feature description cannot be empty\<close> in
  the first case, \<^verbatim>\<open>Feature description is too short (minimum 10 characters)\<close> in the
  second, and \<^verbatim>\<open>None\<close> for any description of at least 10 characters after trimming.
\<close>

theorem analyze_input_validation:
  "(truthy_str (sp_error (specify_merge state (analyze_input U state)))
      \<longleftrightarrow> list_all (is_space U) (sp_feature_description state)
          \<or> length (py_strip U (sp_feature_description state)) < 10)
   \<and> (list_all (is_space U) (sp_feature_description state) \<longrightarrow>
        analyze_input U state = [SP_error (Some (T ''Feature description cannot be empty''))])
   \<and> (\<not> list_all (is_space U) (sp_feature_description state)
        \<and> length (py_strip U (sp_feature_description state)) < 10 \<longrightarrow>
        analyze_input U state =
          [SP_error (Some (T ''Feature description is too short (minimum 10 characters)''))])
   \<and> (10 \<le> length (py_strip U (sp_feature_description state)) \<longrightarrow>
        analyze_input U state = [SP_error None])"
  using strip_chars_Nil_iff [of "is_space U" "sp_feature_description state"]
  by (auto simp: analyze_input_def Let_def specify_merge_def truthy_str_def T_def py_strip_def)

text \<open>
  The descriptions \<^verbatim>\<open>""\<close>, \<^verbatim>\<open>"   "\<close> and \<^verbatim>\<open>"short"\<close> are rejected, the 10 characters
  \<^verbatim>\<open>"Add login."\<close> are accepted.
\<close>

theorem analyze_input_validation_witness:
  "truthy_str (sp_error (specify_merge (specify_initial (T ''''))
      (analyze_input ascii_tables (specify_initial (T '''')))))
   \<and> analyze_input ascii_tables (specify_initial (T '''')) =
       [SP_error (Some (T ''Feature description cannot be empty''))]
   \<and> analyze_input ascii_tables (specify_initial (T ''   '')) =
       [SP_error (Some (T ''Feature description cannot be empty''))]
   \<and> analyze_input ascii_tables (specify_initial (T ''short'')) =
       [SP_error (Some (T ''Feature description is too short (minimum 10 characters)''))]
   \<and> analyze_input ascii_tables (specify_initial (T ''Add login.'')) = [SP_error None]"
  using analyze_input_validation [where U = ascii_tables and state = "specify_initial (T '''')"]
    analyze_input_validation [where U = ascii_tables and state = "specify_initial (T ''   '')"]
    analyze_input_validation [where U = ascii_tables and state = "specify_initial (T ''short'')"]
    analyze_input_validation
      [where U = ascii_tables and state = "specify_initial (T ''Add login.'')"]
  by (simp add: T_def py_strip_def strip_chars_def is_space_def is_ascii_def analyze_input_def
      specify_merge_def truthy_str_def specify_initial_def)

section \<open>Properties of the artifact store\<close>

lemma max_by_id: "max_by (\<lambda>k. k) b xs = Max (set (b # xs))"
proof (induction xs arbitrary: b)
  case Nil
  then show ?case by simp
next
  case (Cons x xs)
  have m: "(if b < x then x else b) = max b x" by (simp add: max_def)
  have "max_by (\<lambda>k. k) b (x # xs) = Max (set (max b x # xs))"
    using Cons.IH [of "max b x"] by (simp only: max_by.simps m)
  also have "\<dots> = Max (set (b # x # xs))"
    by (cases "xs = []") (simp_all add: max.assoc)
  finally show ?case .
qed

lemma set_dir_numbers:
  "set (dir_numbers U (filter is_dir entries)) =
     {n. \<exists>e \<in> set entries. is_dir e \<and> leading_number U (fst e) = Some n}"
  by (force simp: dir_numbers_def List.map_filter_def image_iff)

lemma not_digit_hyphen: "\<not> is_digit U hyphen"
  by (simp add: is_digit_def digit_value_def hyphen_def is_ascii_def)

lemma leading_number_match:
  assumes "ds \<noteq> []" "list_all (is_digit U) ds"
  shows "leading_number U (ds @ hyphen # rest) = Some (int_of_digits U ds)"
proof -
  have "takeWhile (is_digit U) (ds @ hyphen # rest) = ds"
    using assms(2) not_digit_hyphen [of U] by (simp add: list_all_iff takeWhile_append2)
  moreover have "dropWhile (is_digit U) (ds @ hyphen # rest) = hyphen # rest"
    using assms(2) not_digit_hyphen [of U] by (simp add: list_all_iff dropWhile_append2)
  ultimately show ?thesis using assms(1) by (simp add: leading_number_def)
qed

lemma leading_number_SomeD:
  assumes "leading_number U name = Some n"
  shows "\<exists>ds rest. name = ds @ hyphen # rest \<and> ds \<noteq> [] \<and> list_all (is_digit U) ds
           \<and> n = int_of_digits U ds"
proof -
  let ?ds = "takeWhile (is_digit U) name" and ?rest = "dropWhile (is_digit U) name"
  from assms have a: "?ds \<noteq> []" "take 1 ?rest = [hyphen]" "n = int_of_digits U ?ds"
    by (auto simp: leading_number_def Let_def split: if_splits)
  from a(2) obtain rest where r: "?rest = hyphen # rest"
    by (cases ?rest) auto
  have "name = ?ds @ ?rest" by simp
  moreover have "list_all (is_digit U) ?ds"
    by (simp add: list_all_iff) (meson set_takeWhileD)
  ultimately show ?thesis using a r by metis
qed

text \<open>
  Claim C3 (next number). On an absent or empty root the next number is 1. When some
  directory of the root has a name that matches \<^verbatim>\<open>^(\d+)-\<close>, the next number is the
  greatest of the leading integers of these directories plus 1. A name matches exactly when
  it is a non-empty run of digits followed by a hyphen, and its leading integer is the
  value of that run. \<open>create_spec_directory\<close> allocates that number: on every store it
  returns the number \<open>n\<close> that \<open>get_next_spec_number\<close> gives there and the directory
  named by \<open>n\<close> in three digits, a hyphen and the slug, which is a directory of the root
  afterwards. It raises only when a plain file of the root has that name already, and it
  keeps every entry of the root. When no directory of the root has a matching name, the
  next number is 1 as well.
\<close>

theorem get_next_spec_number_max_plus_one:
  "get_next_spec_number U None = 1
   \<and> get_next_spec_number U (Some []) = 1
   \<and> ({n. \<exists>e \<in> set entries. is_dir e \<and> leading_number U (fst e) = Some n} \<noteq> {} \<longrightarrow>
        get_next_spec_number U (Some entries) =
          Max {n. \<exists>e \<in> set entries. is_dir e \<and> leading_number U (fst e) = Some n} + 1)
   \<and> (ds \<noteq> [] \<and> list_all (is_digit U) ds \<longrightarrow>
        leading_number U (ds @ hyphen # rest) = Some (int_of_digits U ds))
   \<and> (leading_number U name = Some k \<longrightarrow>
        (\<exists>ds rest. name = ds @ hyphen # rest \<and> ds \<noteq> [] \<and> list_all (is_digit U) ds
           \<and> k = int_of_digits U ds))
   \<and> (fst (create_spec_directory U feature_name specs_dir) = Inr (spec_path, spec_number) \<longrightarrow>
        spec_number = get_next_spec_number U specs_dir)
   \<and> (let n = get_next_spec_number U specs_dir;
           dir_name = format_03d n @ [hyphen] @ slugify U feature_name;
           before = (case specs_dir of None \<Rightarrow> [] | Some es \<Rightarrow> es)
       in (map_of before dir_name \<noteq> Some PlainFile \<longrightarrow>
             fst (create_spec_directory U feature_name specs_dir) = Inr (SpecPath dir_name, n)
             \<and> (\<exists>after files.
                   snd (create_spec_directory U feature_name specs_dir) = Some after
                   \<and> map_of after dir_name = Some (SpecDir files)))
          \<and> (map_of before dir_name = Some PlainFile \<longrightarrow>
             fst (create_spec_directory U feature_name specs_dir) = Inl FileExistsError)
          \<and> (\<exists>after. snd (create_spec_directory U feature_name specs_dir) = Some after
                \<and> set before \<subseteq> set after))
   \<and> ({n. \<exists>e \<in> set entries. is_dir e \<and> leading_number U (fst e) = Some n} = {} \<longrightarrow>
        get_next_spec_number U (Some entries) = 1)"
proof -
  have c: "{n. \<exists>e \<in> set entries. is_dir e \<and> leading_number U (fst e) = Some n} \<noteq> {} \<longrightarrow>
        get_next_spec_number U (Some entries) =
          Max {n. \<exists>e \<in> set entries. is_dir e \<and> leading_number U (fst e) = Some n} + 1"
  proof
    assume ne: "{n. \<exists>e \<in> set entries. is_dir e \<and> leading_number U (fst e) = Some n} \<noteq> {}"
    then have s: "set (dir_numbers U (filter is_dir entries)) \<noteq> {}"
      unfolding set_dir_numbers .
    then obtain n ns where d: "dir_numbers U (filter is_dir entries) = n # ns"
      by (cases "dir_numbers U (filter is_dir entries)") auto
    have f: "filter is_dir entries \<noteq> []"
    proof
      assume "filter is_dir entries = []"
      then have "dir_numbers U (filter is_dir entries) = []"
        by (simp add: dir_numbers_def List.map_filter_def)
      with d show False by simp
    qed
    have "get_next_spec_number U (Some entries) = Max (set (n # ns)) + 1"
      using d f by (simp add: get_next_spec_number_def Let_def max_by_id del: set_simps)
    then show "get_next_spec_number U (Some entries) =
          Max {n. \<exists>e \<in> set entries. is_dir e \<and> leading_number U (fst e) = Some n} + 1"
      using d set_dir_numbers [of U entries] by simp
  qed
  have e: "fst (create_spec_directory U feature_name specs_dir) = Inr (spec_path, spec_number) \<longrightarrow>
        spec_number = get_next_spec_number U specs_dir"
    by (cases specs_dir)
      (auto simp: create_spec_directory_def Let_def get_next_spec_number_def
        split: option.splits entry.splits)
  have n: "get_next_spec_number U None = get_next_spec_number U (Some [])"
    by (simp add: get_next_spec_number_def)
  have f: "let n = get_next_spec_number U specs_dir;
           dir_name = format_03d n @ [hyphen] @ slugify U feature_name;
           before = (case specs_dir of None \<Rightarrow> [] | Some es \<Rightarrow> es)
       in (map_of before dir_name \<noteq> Some PlainFile \<longrightarrow>
             fst (create_spec_directory U feature_name specs_dir) = Inr (SpecPath dir_name, n)
             \<and> (\<exists>after files.
                   snd (create_spec_directory U feature_name specs_dir) = Some after
                   \<and> map_of after dir_name = Some (SpecDir files)))
          \<and> (map_of before dir_name = Some PlainFile \<longrightarrow>
             fst (create_spec_directory U feature_name specs_dir) = Inl FileExistsError)
          \<and> (\<exists>after. snd (create_spec_directory U feature_name specs_dir) = Some after
                \<and> set before \<subseteq> set after)"
  proof (cases specs_dir)
    case None
    then show ?thesis
      by (simp add: create_spec_directory_def Let_def n)
  next
    case (Some es)
    then show ?thesis
      by (auto simp: create_spec_directory_def Let_def map_add_def
          split: option.splits entry.splits)
  qed
  have g: "{n. \<exists>e \<in> set entries. is_dir e \<and> leading_number U (fst e) = Some n} = {} \<longrightarrow>
        get_next_spec_number U (Some entries) = 1"
  proof
    assume "{n. \<exists>e \<in> set entries. is_dir e \<and> leading_number U (fst e) = Some n} = {}"
    then have "set (dir_numbers U (filter is_dir entries)) = {}"
      unfolding set_dir_numbers .
    then have "dir_numbers U (filter is_dir entries) = []" by simp
    then show "get_next_spec_number U (Some entries) = 1"
      by (simp add: get_next_spec_number_def Let_def)
  qed
  have h: "get_next_spec_number U None = 1 \<and> get_next_spec_number U (Some []) = 1"
    by (simp add: get_next_spec_number_def)
  show ?thesis
    using c e f g h leading_number_match [of ds U rest] leading_number_SomeD [of U name k]
    by blast
qed

text \<open>
  On \<open>example_root\<close> (directories 001, 007 and 02, a directory without a number and a
  plain file numbered 009) the next number is 8, and the feature \<^verbatim>\<open>Add search\<close> gets the
  directory \<^verbatim>\<open>008-add-search\<close>; on an absent root the first feature gets the directory
  \<^verbatim>\<open>001-add-csv-export-to-reports-page\<close>.
\<close>

theorem get_next_spec_number_max_plus_one_witness:
  "(\<exists>e \<in> set example_root. is_dir e \<and> leading_number ascii_tables (fst e) = Some 7)
   \<and> get_next_spec_number ascii_tables (Some example_root) = 8
   \<and> leading_number ascii_tables (T ''007-export'') = Some 7
   \<and> get_next_spec_number ascii_tables (Some [(T ''notes'', SpecDir [])]) = 1
   \<and> map_of example_root (T ''008-add-search'') \<noteq> Some PlainFile
   \<and> fst (create_spec_directory ascii_tables (T ''Add search'') (Some example_root)) =
       Inr (SpecPath (T ''008-add-search''), 8)
   \<and> snd (create_spec_directory ascii_tables (T ''Add search'') (Some example_root)) =
       Some (example_root @ [(T ''008-add-search'', SpecDir [])])
   \<and> create_spec_directory ascii_tables (T ''Add CSV export to reports page'') None =
       (Inr (SpecPath (T ''001-add-csv-export-to-reports-page''), 1),
        Some [(T ''001-add-csv-export-to-reports-page'', SpecDir [])])"
proof -
  have a: "\<exists>e \<in> set example_root. is_dir e \<and> leading_number ascii_tables (fst e) = Some 7"
    by code_simp
  have b: "get_next_spec_number ascii_tables (Some example_root) = 8"
    by code_simp
  have c: "leading_number ascii_tables (T ''007-export'') = Some 7"
    by code_simp
  have d: "create_spec_directory ascii_tables (T ''Add CSV export to reports page'') None =
       (Inr (SpecPath (T ''001-add-csv-export-to-reports-page''), 1),
        Some [(T ''001-add-csv-export-to-reports-page'', SpecDir [])])"
    by code_simp
  have nm: "format_03d 8 @ [hyphen] @ slugify ascii_tables (T ''Add search'') =
      T ''008-add-search''"
    by code_simp
  have h: "map_of example_root (T ''008-add-search'') \<noteq> Some PlainFile"
    by code_simp
  have s: "snd (create_spec_directory ascii_tables (T ''Add search'') (Some example_root)) =
       Some (example_root @ [(T ''008-add-search'', SpecDir [])])"
    by code_simp
  have g: "map_of example_root (T ''008-add-search'') \<noteq> Some PlainFile \<longrightarrow>
      fst (create_spec_directory ascii_tables (T ''Add search'') (Some example_root)) =
        Inr (SpecPath (T ''008-add-search''), 8)
      \<and> (\<exists>after files.
            snd (create_spec_directory ascii_tables (T ''Add search'') (Some example_root)) =
              Some after
            \<and> map_of after (T ''008-add-search'') = Some (SpecDir files))"
    using get_next_spec_number_max_plus_one [where U = ascii_tables
        and feature_name = "T ''Add search''" and specs_dir = "Some example_root",
        THEN conjunct2, THEN conjunct2, THEN conjunct2, THEN conjunct2, THEN conjunct2,
        THEN conjunct2]
    unfolding Let_def b nm option.case by blast
  have f: "fst (create_spec_directory ascii_tables (T ''Add search'') (Some example_root)) =
       Inr (SpecPath (T ''008-add-search''), 8)"
    using g h by blast
  have o: "get_next_spec_number ascii_tables (Some [(T ''notes'', SpecDir [])]) = 1"
    by code_simp
  show ?thesis
    using a b c d h s f o
      get_next_spec_number_max_plus_one [where U = ascii_tables and entries = example_root
        and ds = "T ''007''" and rest = "T ''export''" and name = "T ''007-export''" and k = 7
        and feature_name = "T ''Add CSV export to reports page''" and specs_dir = None
        and spec_path = "SpecPath (T ''001-add-csv-export-to-reports-page'')" and spec_number = 1]
    by blast
qed

lemma max_by_in: "max_by key b xs \<in> set (b # xs)"
  by (induction xs arbitrary: b) (auto split: if_splits)

lemma max_by_best_le: "key b \<le> key (max_by key b xs)"
proof (induction xs arbitrary: b)
  case Nil
  then show ?case by simp
next
  case (Cons x xs)
  show ?case
    using Cons.IH [of x] Cons.IH [of b] by (auto split: if_splits)
qed

lemma max_by_ge: "x \<in> set (b # xs) \<Longrightarrow> key x \<le> key (max_by key b xs)"
proof (induction xs arbitrary: b)
  case Nil
  then show ?case by simp
next
  case (Cons y ys)
  let ?b = "if key b < key y then y else b"
  have b: "key b \<le> key ?b" and y: "key y \<le> key ?b" by auto
  from Cons.prems consider "x = b" | "x = y" | "x \<in> set ys" by auto
  then show ?case
  proof cases
    case 1
    then show ?thesis using b max_by_best_le [of key ?b ys] by (simp del: max_by.simps(2) add: max_by.simps(2) [of key b y ys]) 
  next
    case 2
    then show ?thesis using y max_by_best_le [of key ?b ys] by (simp del: max_by.simps(2) add: max_by.simps(2) [of key b y ys])
  next
    case 3
    then show ?thesis using Cons.IH [of ?b] by simp
  qed
qed

lemma max_by_first:
  "\<exists>pre post. b # xs = pre @ max_by key b xs # post
     \<and> (\<forall>x \<in> set pre. key x < key (max_by key b xs))
     \<and> (\<forall>x \<in> set post. key x \<le> key (max_by key b xs))"
proof (induction xs arbitrary: b)
  case Nil
  have "[b] = [] @ b # []" by simp
  then show ?case by (metis empty_iff list.set(1) max_by.simps(1))
next
  case (Cons x xs)
  define b' where "b' = (if key b < key x then x else b)"
  define m where "m = max_by key b (x # xs)"
  have mm: "m = max_by key b' xs" by (simp add: m_def b'_def)
  from Cons.IH [of b'] obtain pre post where
    d: "b' # xs = pre @ m # post"
    and l: "\<forall>y \<in> set pre. key y < key m"
    and r: "\<forall>y \<in> set post. key y \<le> key m"
    unfolding mm by blast
  have bm: "key b' \<le> key m" unfolding mm by (rule max_by_best_le)
  have "\<exists>pre post. b # x # xs = pre @ m # post
     \<and> (\<forall>y \<in> set pre. key y < key m) \<and> (\<forall>y \<in> set post. key y \<le> key m)"
  proof (cases "key b < key x")
    case True
    then have "b' = x" by (simp add: b'_def)
    then have "b # x # xs = (b # pre) @ m # post" using d by simp
    moreover have "\<forall>y \<in> set (b # pre). key y < key m"
      using True bm l \<open>b' = x\<close> by auto
    ultimately show ?thesis using r by blast
  next
    case False
    then have bb: "b' = b" by (simp add: b'_def)
    show ?thesis
    proof (cases pre)
      case Nil
      then have e: "m = b" "post = xs" using d bb by simp_all
      have "b # x # xs = [] @ m # (x # xs)" using e by simp
      moreover have "\<forall>y \<in> set (x # xs). key y \<le> key m"
        using r e False by auto
      moreover have "\<forall>y \<in> set ([] :: 'a list). key y < key m" by simp
      ultimately show ?thesis by blast
    next
      case (Cons p pre')
      then have pb: "p = b" and x: "xs = pre' @ m # post" using d bb by simp_all
      have "key b < key m" using l Cons pb by simp
      then have "key x < key m" using False by simp
      then have "\<forall>y \<in> set (b # x # pre'). key y < key m"
        using l Cons pb by simp
      moreover have "b # x # xs = (b # x # pre') @ m # post" using x by simp
      ultimately show ?thesis using r by blast
    qed
  qed
  then show ?case unfolding m_def .
qed

lemma max_by_decomp:
  assumes "b # xs = pre @ d # post" "\<forall>x \<in> set pre. key x < key d"
    "\<forall>x \<in> set post. key x \<le> key d"
  shows "max_by key b xs = d"
  using assms
proof (induction xs arbitrary: b pre post)
  case Nil
  then show ?case by (cases pre) simp_all
next
  case (Cons x xs)
  show ?case
  proof (cases pre)
    case Nil
    then have e: "d = b" "post = x # xs" using Cons.prems(1) by simp_all
    then have "\<not> key b < key x" using Cons.prems(3) by auto
    moreover have "max_by key b xs = d"
      using Cons.IH [of b "[]" xs] e Cons.prems(3) by simp
    ultimately show ?thesis by simp
  next
    case (Cons p pre')
    then have pb: "p = b" and r: "x # xs = pre' @ d # post" using Cons.prems(1) by simp_all
    have bd: "key b < key d" using Cons.prems(2) Cons pb by simp
    show ?thesis
    proof (cases pre')
      case Nil
      then have e: "d = x" "post = xs" using r by simp_all
      have "max_by key x xs = d" using Cons.IH [of x "[]" xs] e Cons.prems(3) by simp
      then show ?thesis using bd e by simp
    next
      case (Cons q pre'')
      then have qx: "q = x" and s: "xs = pre'' @ d # post" using r by simp_all
      have xd: "key x < key d" using Cons.prems(2) \<open>pre = p # pre'\<close> Cons qx by simp
      define b' where "b' = (if key b < key x then x else b)"
      have "key b' < key d" using bd xd by (simp add: b'_def)
      moreover have "\<forall>y \<in> set pre''. key y < key d"
        using Cons.prems(2) \<open>pre = p # pre'\<close> Cons by simp
      ultimately have "max_by key b' xs = d"
        using Cons.IH [of b' "b' # pre''" post] s Cons.prems(3) by simp
      then show ?thesis by (simp add: b'_def)
    qed
  qed
qed

text \<open>
  Claim C7 (latest directory), as amended. \<open>find_latest_spec\<close> returns nothing exactly
  when the root is absent or has no directory. Otherwise it returns the first directory, in
  the order of the listing, among those whose parsed number is greatest, where a name
  without a leading integer parses as 0: the directories before it parse lower, those after
  it parse no higher. When some directory has a leading integer of at least 1, the
  directory returned has a leading integer; when every directory parses as 0, the first
  directory of the listing is returned, numbered or not.
\<close>

theorem find_latest_spec_maximal:
  "(find_latest_spec U specs_dir = None \<longleftrightarrow>
      (case specs_dir of None \<Rightarrow> True | Some es \<Rightarrow> filter is_dir es = []))
   \<and> (find_latest_spec U (Some entries) = Some p \<longrightarrow>
        (\<exists>d \<in> set entries. is_dir d \<and> p = SpecPath (fst d)
           \<and> (\<forall>d' \<in> set entries. is_dir d' \<longrightarrow> get_spec_number U d' \<le> get_spec_number U d)
           \<and> ((\<exists>d' \<in> set entries. is_dir d' \<and> (\<exists>n. 0 < n \<and> leading_number U (fst d') = Some n))
                \<longrightarrow> leading_number U (fst d) \<noteq> None)))
   \<and> (leading_number U (fst e) = None \<longrightarrow> get_spec_number U e = 0)
   \<and> (leading_number U (fst e) = Some k \<longrightarrow> get_spec_number U e = k)
   \<and> (filter is_dir entries \<noteq> [] \<longrightarrow>
        (\<exists>pre d post. filter is_dir entries = pre @ d # post
           \<and> (\<forall>d' \<in> set pre. get_spec_number U d' < get_spec_number U d)
           \<and> (\<forall>d' \<in> set post. get_spec_number U d' \<le> get_spec_number U d)))
   \<and> (filter is_dir entries = pre @ d # post
        \<and> (\<forall>d' \<in> set pre. get_spec_number U d' < get_spec_number U d)
        \<and> (\<forall>d' \<in> set post. get_spec_number U d' \<le> get_spec_number U d) \<longrightarrow>
        find_latest_spec U (Some entries) = Some (SpecPath (fst d)))
   \<and> (filter is_dir entries = d # post \<and> (\<forall>d' \<in> set post. get_spec_number U d' = 0) \<longrightarrow>
        find_latest_spec U (Some entries) = Some (SpecPath (fst d)))"
proof -
  have a: "find_latest_spec U specs_dir = None \<longleftrightarrow>
      (case specs_dir of None \<Rightarrow> True | Some es \<Rightarrow> filter is_dir es = [])"
    by (simp add: find_latest_spec_def split: option.splits list.splits)
  have b: "find_latest_spec U (Some entries) = Some p \<longrightarrow>
        (\<exists>d \<in> set entries. is_dir d \<and> p = SpecPath (fst d)
           \<and> (\<forall>d' \<in> set entries. is_dir d' \<longrightarrow> get_spec_number U d' \<le> get_spec_number U d)
           \<and> ((\<exists>d' \<in> set entries. is_dir d' \<and> (\<exists>n. 0 < n \<and> leading_number U (fst d') = Some n))
                \<longrightarrow> leading_number U (fst d) \<noteq> None))"
  proof
    assume f: "find_latest_spec U (Some entries) = Some p"
    then obtain x xs where l: "filter is_dir entries = x # xs"
      by (cases "filter is_dir entries") (auto simp: find_latest_spec_def)
    let ?d = "max_by (get_spec_number U) x xs"
    have p: "p = SpecPath (fst ?d)" using f l by (simp add: find_latest_spec_def)
    have "?d \<in> set (filter is_dir entries)" using max_by_in [of "get_spec_number U" x xs] l by simp
    then have m: "?d \<in> set entries" "is_dir ?d" by auto
    have g: "\<forall>d' \<in> set entries. is_dir d' \<longrightarrow> get_spec_number U d' \<le> get_spec_number U ?d"
    proof (intro ballI impI)
      fix d' assume "d' \<in> set entries" "is_dir d'"
      then have "d' \<in> set (x # xs)" using l [symmetric] by simp
      then show "get_spec_number U d' \<le> get_spec_number U ?d" by (rule max_by_ge)
    qed
    have h: "(\<exists>d' \<in> set entries. is_dir d' \<and> (\<exists>n. 0 < n \<and> leading_number U (fst d') = Some n))
                \<longrightarrow> leading_number U (fst ?d) \<noteq> None"
    proof
      assume "\<exists>d' \<in> set entries. is_dir d' \<and> (\<exists>n. 0 < n \<and> leading_number U (fst d') = Some n)"
      then obtain d' n where d': "d' \<in> set entries" "is_dir d'" "0 < n" "leading_number U (fst d') = Some n"
        by blast
      then have "get_spec_number U d' = n" by (simp add: get_spec_number_def)
      with g d' have "0 < get_spec_number U ?d" by force
      then show "leading_number U (fst ?d) \<noteq> None"
        by (auto simp: get_spec_number_def split: option.splits)
    qed
    show "\<exists>d \<in> set entries. is_dir d \<and> p = SpecPath (fst d)
           \<and> (\<forall>d' \<in> set entries. is_dir d' \<longrightarrow> get_spec_number U d' \<le> get_spec_number U d)
           \<and> ((\<exists>d' \<in> set entries. is_dir d' \<and> (\<exists>n. 0 < n \<and> leading_number U (fst d') = Some n))
                \<longrightarrow> leading_number U (fst d) \<noteq> None)"
      using m p g h by blast
  qed
  have c: "filter is_dir entries \<noteq> [] \<longrightarrow>
        (\<exists>pre d post. filter is_dir entries = pre @ d # post
           \<and> (\<forall>d' \<in> set pre. get_spec_number U d' < get_spec_number U d)
           \<and> (\<forall>d' \<in> set post. get_spec_number U d' \<le> get_spec_number U d))"
  proof
    assume "filter is_dir entries \<noteq> []"
    then obtain x xs where l: "filter is_dir entries = x # xs"
      by (cases "filter is_dir entries") auto
    show "\<exists>pre d post. filter is_dir entries = pre @ d # post
           \<and> (\<forall>d' \<in> set pre. get_spec_number U d' < get_spec_number U d)
           \<and> (\<forall>d' \<in> set post. get_spec_number U d' \<le> get_spec_number U d)"
      unfolding l using max_by_first [of x xs "get_spec_number U"] by blast
  qed
  have d: "find_latest_spec U (Some entries) = Some (SpecPath (fst d))"
    if "filter is_dir entries = pre @ d # post"
      "\<forall>d' \<in> set pre. get_spec_number U d' < get_spec_number U d"
      "\<forall>d' \<in> set post. get_spec_number U d' \<le> get_spec_number U d" for pre d post
  proof -
    have "filter is_dir entries \<noteq> []" using that(1) by simp
    then obtain x xs where l: "filter is_dir entries = x # xs"
      by (cases "filter is_dir entries") auto
    then have "x # xs = pre @ d # post" using that(1) by simp
    then have "max_by (get_spec_number U) x xs = d"
      using that(2,3) by (rule max_by_decomp)
    then show ?thesis using l by (simp add: find_latest_spec_def)
  qed
  have e: "find_latest_spec U (Some entries) = Some (SpecPath (fst d))"
    if "filter is_dir entries = d # post" "\<forall>d' \<in> set post. get_spec_number U d' = 0"
  proof -
    have "filter is_dir entries = [] @ d # post" using that(1) by simp
    moreover have "\<forall>d' \<in> set ([] :: (pystr \<times> entry) list).
        get_spec_number U d' < get_spec_number U d" by simp
    moreover have "\<forall>d' \<in> set post. get_spec_number U d' \<le> get_spec_number U d"
      using that(2) by simp
    ultimately show ?thesis by (rule d)
  qed
  show ?thesis using a b c d [of pre d post] e by (simp add: get_spec_number_def)
qed

text \<open>
  The claim as stated says that a directory without a leading integer is never preferred.
  It parses as 0, like a directory numbered 0, and \<^verbatim>\<open>max\<close> keeps the first of equals: on
  \<open>unnumbered_root\<close> the directory \<^verbatim>\<open>notes\<close> is returned although \<^verbatim>\<open>0-draft\<close> has a
  leading integer.
\<close>

theorem find_latest_spec_unnumbered_counterexample:
  "find_latest_spec ascii_tables (Some unnumbered_root) = Some (SpecPath (T ''notes''))
   \<and> leading_number ascii_tables (T ''notes'') = None
   \<and> leading_number ascii_tables (T ''0-draft'') = Some 0"
  by code_simp

text \<open>
  On \<open>example_root\<close> the latest directory is \<^verbatim>\<open>007-export\<close>; on \<open>tied_root\<close>, where
  \<^verbatim>\<open>7-a\<close> and \<^verbatim>\<open>007-b\<close> both parse as 7, it is \<^verbatim>\<open>7-a\<close>, the first of them; an absent
  root and a root with plain files only have none.
\<close>

theorem find_latest_spec_maximal_witness:
  "find_latest_spec ascii_tables (Some example_root) = Some (SpecPath (T ''007-export''))
   \<and> leading_number ascii_tables (T ''007-export'') = Some 7
   \<and> get_spec_number ascii_tables (T ''notes'', SpecDir []) = 0
   \<and> find_latest_spec ascii_tables None = None
   \<and> find_latest_spec ascii_tables (Some [(T ''009-readme'', PlainFile)]) = None
   \<and> filter is_dir tied_root = [] @ (T ''7-a'', SpecDir []) # [(T ''007-b'', SpecDir [])]
   \<and> get_spec_number ascii_tables (T ''007-b'', SpecDir []) =
       get_spec_number ascii_tables (T ''7-a'', SpecDir [])
   \<and> find_latest_spec ascii_tables (Some tied_root) = Some (SpecPath (T ''7-a''))"
proof -
  have a: "find_latest_spec ascii_tables (Some example_root) = Some (SpecPath (T ''007-export''))"
    by code_simp
  have b: "leading_number ascii_tables (T ''007-export'') = Some 7
    \<and> get_spec_number ascii_tables (T ''notes'', SpecDir []) = 0
   \<and> find_latest_spec ascii_tables None = None
   \<and> find_latest_spec ascii_tables (Some [(T ''009-readme'', PlainFile)]) = None"
    by code_simp
  have f: "filter is_dir tied_root = [] @ (T ''7-a'', SpecDir []) # [(T ''007-b'', SpecDir [])]"
    by (simp add: tied_root_def)
  have g: "get_spec_number ascii_tables (T ''007-b'', SpecDir []) =
       get_spec_number ascii_tables (T ''7-a'', SpecDir [])"
    by code_simp
  have t: "find_latest_spec ascii_tables (Some tied_root) = Some (SpecPath (T ''7-a''))"
    using find_latest_spec_maximal [where U = ascii_tables and entries = tied_root
        and pre = "[]" and d = "(T ''7-a'', SpecDir [])" and post = "[(T ''007-b'', SpecDir [])]"]
      f g
    by simp
  show ?thesis
    using a b f g t find_latest_spec_maximal [where U = ascii_tables and entries = example_root
        and specs_dir = None and p = "SpecPath (T ''007-export'')"
        and e = "(T ''007-export'', SpecDir [])" and k = 7]
    by blast
qed

section \<open>Properties of the pipelines\<close>

lemma analyze_input_error_truthy:
  "analyze_input U s = [SP_error (Some m)] \<Longrightarrow> m \<noteq> []"
  by (auto simp: analyze_input_def Let_def T_def split: if_splits)

lemma plan_load_error_truthy:
  "plan_load_specification U s st = [PL_error (Some m)] \<Longrightarrow> m \<noteq> []"
  by (auto simp: plan_load_specification_def Let_def T_def msg_no_specifications_def
      msg_spec_not_found_def split: option.splits sum.splits)

lemma tasks_load_error_truthy:
  "load_plan U s st = [TA_error (Some m)] \<Longrightarrow> m \<noteq> []"
  by (auto simp: load_plan_def Let_def T_def msg_no_specifications_def
      msg_spec_not_found_def split: option.splits sum.splits)

lemma clarify_load_error_truthy:
  "clarify_load_specification U s st = [CL_error (Some m)] \<Longrightarrow> m \<noteq> []"
  by (auto simp: clarify_load_specification_def Let_def T_def msg_no_specifications_def
      msg_spec_not_found_def split: option.splits sum.splits)

lemma analyze_error_truthy:
  "analyze_and_generate_questions U G J s = Inr [CL_error (Some m)] \<Longrightarrow> m \<noteq> []"
  by (auto simp: analyze_and_generate_questions_def T_def msg_parse_failed_def
      split: if_splits option.splits sum.splits json.splits)

lemma update_error_truthy:
  "update_specification U G s = Inr [CL_error (Some m)] \<Longrightarrow> m \<noteq> []"
  by (auto simp: update_specification_def T_def msg_no_answers_def
      split: if_splits option.splits sum.splits)

lemma specify_steps_skip:
  "truthy_str (sp_error s) \<Longrightarrow>
     generate_specification G s = Inr [] \<and> specify_save_specification U s st = (Inr [], st)"
  by (simp add: generate_specification_def specify_save_specification_def)

lemma plan_steps_skip:
  "truthy_str (pl_error s) \<Longrightarrow> generate_plan G s = Inr [] \<and> save_plan s st = (Inr [], st)"
  by (simp add: generate_plan_def save_plan_def)

lemma tasks_steps_skip:
  "truthy_str (ta_error s) \<Longrightarrow> generate_tasks G s = Inr [] \<and> save_tasks s st = (Inr [], st)"
  by (simp add: generate_tasks_def save_tasks_def)

lemma clarify_steps_skip:
  "truthy_str (cl_error s) \<Longrightarrow>
     analyze_and_generate_questions U G J s = Inr [] \<and> update_specification U G s = Inr []
     \<and> clarify_save_specification s st = (Inr [], st)"
  by (simp add: analyze_and_generate_questions_def update_specification_def
      clarify_save_specification_def)

lemma run_specify_error:
  assumes "analyze_input U (specify_initial d) = [SP_error (Some m)]"
  shows "run_specify U G d st =
           \<lparr>outcome = Inr ((specify_initial d)\<lparr>sp_error := Some m\<rparr>), store_after = st,
            visited = [Analyze]\<rparr>"
  using assms analyze_input_error_truthy [OF assms]
  by (simp add: run_specify_def specify_merge_def specify_should_continue_def truthy_str_def)

lemma run_plan_error:
  assumes "plan_load_specification U (plan_initial c) st = [PL_error (Some m)]"
  shows "run_plan U G c st =
           \<lparr>outcome = Inr ((plan_initial c)\<lparr>pl_error := Some m\<rparr>), store_after = st,
            visited = [Load]\<rparr>"
  using assms plan_load_error_truthy [OF assms]
  by (simp add: run_plan_def plan_merge_def plan_should_continue_def truthy_str_def)

lemma run_tasks_error:
  assumes "load_plan U tasks_initial st = [TA_error (Some m)]"
  shows "run_tasks U G st =
           \<lparr>outcome = Inr (tasks_initial\<lparr>ta_error := Some m\<rparr>), store_after = st,
            visited = [Load]\<rparr>"
  using assms tasks_load_error_truthy [OF assms]
  by (simp add: run_tasks_def tasks_merge_def tasks_should_continue_def truthy_str_def)

lemma run_clarify_load_error:
  assumes "clarify_load_specification U (clarify_initial a) st = [CL_error (Some m)]"
  shows "run_clarify U G J a st =
           \<lparr>outcome = Inr ((clarify_initial a)\<lparr>cl_error := Some m\<rparr>), store_after = st,
            visited = [Load]\<rparr>"
  using assms clarify_load_error_truthy [OF assms]
  by (simp add: run_clarify_def clarify_merge_def should_continue_after_load_def truthy_str_def)

lemma clarify_analyze_error:
  assumes "analyze_and_generate_questions U G J s = Inr [CL_error (Some m)]"
  shows "clarify_from_analyze U G J s st trace =
           \<lparr>outcome = Inr (s\<lparr>cl_error := Some m\<rparr>), store_after = st,
            visited = trace @ [Analyze]\<rparr>"
  using assms analyze_error_truthy [OF assms]
  by (simp add: clarify_from_analyze_def clarify_merge_def should_continue_after_analyze_def
      truthy_str_def)

lemma clarify_update_error:
  assumes "update_specification U G s = Inr [CL_error (Some m)]"
  shows "clarify_from_update U G s st trace =
           \<lparr>outcome = Inr (s\<lparr>cl_error := Some m\<rparr>), store_after = st,
            visited = trace @ [Update]\<rparr>"
  using assms update_error_truthy [OF assms]
  by (simp add: clarify_from_update_def clarify_merge_def should_continue_after_update_def
      truthy_str_def)

text \<open>
  Claim C6 (errors short-circuit). In each of the four pipelines, every step that can
  follow another returns the empty dictionary, calls no gateway and leaves the store alone
  when the state it receives carries an error. Every error that a step sets is a non-empty
  message, and the run that follows ends with the state of that step, the error in it
  unchanged, the store as that step found it and no further node visited.
\<close>

theorem error_short_circuits:
  "(truthy_str (sp_error ss) \<longrightarrow>
      generate_specification G ss = Inr [] \<and> specify_save_specification U ss st = (Inr [], st)
      \<and> specify_merge ss [] = ss)
   \<and> (truthy_str (pl_error ps) \<longrightarrow>
      generate_plan G ps = Inr [] \<and> save_plan ps st = (Inr [], st) \<and> plan_merge ps [] = ps)
   \<and> (truthy_str (ta_error ts) \<longrightarrow>
      generate_tasks G ts = Inr [] \<and> save_tasks ts st = (Inr [], st) \<and> tasks_merge ts [] = ts)
   \<and> (truthy_str (cl_error cs) \<longrightarrow>
      analyze_and_generate_questions U G J cs = Inr [] \<and> update_specification U G cs = Inr []
      \<and> clarify_save_specification cs st = (Inr [], st) \<and> clarify_merge cs [] = cs)
   \<and> (analyze_input U (specify_initial d) = [SP_error (Some msg_sp)] \<longrightarrow>
      truthy_str (Some msg_sp)
      \<and> run_specify U G d st =
          \<lparr>outcome = Inr ((specify_initial d)\<lparr>sp_error := Some msg_sp\<rparr>), store_after = st,
           visited = [Analyze]\<rparr>)
   \<and> (plan_load_specification U (plan_initial c) st = [PL_error (Some msg_pl)] \<longrightarrow>
      truthy_str (Some msg_pl)
      \<and> run_plan U G c st =
          \<lparr>outcome = Inr ((plan_initial c)\<lparr>pl_error := Some msg_pl\<rparr>), store_after = st,
           visited = [Load]\<rparr>)
   \<and> (load_plan U tasks_initial st = [TA_error (Some msg_ta)] \<longrightarrow>
      truthy_str (Some msg_ta)
      \<and> run_tasks U G st =
          \<lparr>outcome = Inr (tasks_initial\<lparr>ta_error := Some msg_ta\<rparr>), store_after = st,
           visited = [Load]\<rparr>)
   \<and> (clarify_load_specification U (clarify_initial a) st = [CL_error (Some msg_cl)] \<longrightarrow>
      truthy_str (Some msg_cl)
      \<and> run_clarify U G J a st =
          \<lparr>outcome = Inr ((clarify_initial a)\<lparr>cl_error := Some msg_cl\<rparr>), store_after = st,
           visited = [Load]\<rparr>)
   \<and> (analyze_and_generate_questions U G J cs_an = Inr [CL_error (Some msg_an)] \<longrightarrow>
      truthy_str (Some msg_an)
      \<and> clarify_from_analyze U G J cs_an st trace =
          \<lparr>outcome = Inr (cs_an\<lparr>cl_error := Some msg_an\<rparr>), store_after = st,
           visited = trace @ [Analyze]\<rparr>)
   \<and> (update_specification U G cs_up = Inr [CL_error (Some msg_up)] \<longrightarrow>
      truthy_str (Some msg_up)
      \<and> clarify_from_update U G cs_up st trace =
          \<lparr>outcome = Inr (cs_up\<lparr>cl_error := Some msg_up\<rparr>), store_after = st,
           visited = trace @ [Update]\<rparr>)"
proof (intro conjI impI)
  show "specify_merge ss [] = ss" "plan_merge ps [] = ps" "tasks_merge ts [] = ts"
    "clarify_merge cs [] = cs"
    by (simp_all add: specify_merge_def plan_merge_def tasks_merge_def clarify_merge_def)
qed (simp_all add: specify_steps_skip plan_steps_skip tasks_steps_skip clarify_steps_skip
    run_specify_error run_plan_error run_tasks_error run_clarify_load_error
    clarify_analyze_error clarify_update_error truthy_str_def
    analyze_input_error_truthy plan_load_error_truthy tasks_load_error_truthy
    clarify_load_error_truthy analyze_error_truthy update_error_truthy)

text \<open>
  A description that is too short, a plan and a task list asked of an absent store, and a
  clarification whose analysis gets prose instead of JSON: each run ends with the error of
  its first failing step, having visited nothing after it.
\<close>

theorem error_short_circuits_witness:
  "run_specify ascii_tables gateway_down (T ''short'') None =
     \<lparr>outcome = Inr ((specify_initial (T ''short''))
         \<lparr>sp_error := Some (T ''Feature description is too short (minimum 10 characters)'')\<rparr>),
      store_after = None, visited = [Analyze]\<rparr>
   \<and> run_plan ascii_tables gateway_down [] None =
     \<lparr>outcome = Inr ((plan_initial [])\<lparr>pl_error := Some msg_no_specifications\<rparr>),
      store_after = None, visited = [Load]\<rparr>
   \<and> run_tasks ascii_tables gateway_down None =
     \<lparr>outcome = Inr (tasks_initial\<lparr>ta_error := Some msg_no_specifications\<rparr>),
      store_after = None, visited = [Load]\<rparr>
   \<and> run_clarify ascii_tables gateway_down example_loads None None =
     \<lparr>outcome = Inr ((clarify_initial None)\<lparr>cl_error := Some msg_no_specifications\<rparr>),
      store_after = None, visited = [Load]\<rparr>
   \<and> clarify_from_analyze ascii_tables prose_gateway example_loads (analyzed_state None)
       example_store [Load] =
     \<lparr>outcome = Inr ((analyzed_state None)
         \<lparr>cl_error := Some (msg_parse_failed (T ''Expecting value: line 1 column 1 (char 0)''))\<rparr>),
      store_after = example_store, visited = [Load, Analyze]\<rparr>
   \<and> clarify_from_update ascii_tables gateway_down
       (analyzed_state (Some [(99, T ''x'')])) example_store [Load, Analyze] =
     \<lparr>outcome = Inr ((analyzed_state (Some [(99, T ''x'')]))\<lparr>cl_error := Some msg_no_answers\<rparr>),
      store_after = example_store, visited = [Load, Analyze, Update]\<rparr>
   \<and> generate_specification prose_gateway
       ((specify_initial (T ''short''))\<lparr>sp_error := Some (T ''failed'')\<rparr>) = Inr []"
proof -
  have a: "analyze_input ascii_tables (specify_initial (T ''short'')) =
      [SP_error (Some (T ''Feature description is too short (minimum 10 characters)''))]"
    by (simp add: T_def py_strip_def strip_chars_def is_space_def is_ascii_def analyze_input_def
        specify_initial_def)
  have b: "plan_load_specification ascii_tables (plan_initial []) None =
      [PL_error (Some msg_no_specifications)]"
    by (simp add: plan_load_specification_def find_latest_spec_def)
  have c: "load_plan ascii_tables tasks_initial None = [TA_error (Some msg_no_specifications)]"
    by (simp add: load_plan_def find_latest_spec_def)
  have d: "clarify_load_specification ascii_tables (clarify_initial None) None =
      [CL_error (Some msg_no_specifications)]"
    by (simp add: clarify_load_specification_def find_latest_spec_def)
  have e: "analyze_and_generate_questions ascii_tables prose_gateway example_loads
      (analyzed_state None) =
      Inr [CL_error (Some (msg_parse_failed (T ''Expecting value: line 1 column 1 (char 0)'')))]"
    by (simp add: analyze_and_generate_questions_def prose_gateway_def analyzed_state_def
        truthy_str_def example_loads_def payload_no_questions_def T_def extract_json_def
        py_contains_def py_find_def fence_json_def fence_def)
  have f: "update_specification ascii_tables gateway_down (analyzed_state (Some [(99, T ''x'')]))
      = Inr [CL_error (Some msg_no_answers)]"
    by (simp add: update_specification_def analyzed_state_def truthy_str_def truthy_answers_def
        two_questions_def question_def answer_for_def T_def)
  have g: "truthy_str (sp_error ((specify_initial (T ''short''))\<lparr>sp_error := Some (T ''failed'')\<rparr>))"
    by (simp add: truthy_str_def T_def)
  show ?thesis
    using a b c d e f g
      error_short_circuits [where U = ascii_tables and G = gateway_down and J = example_loads
        and d = "T ''short''" and c = "[]" and a = None and st = None
        and msg_sp = "T ''Feature description is too short (minimum 10 characters)''"
        and msg_pl = msg_no_specifications and msg_ta = msg_no_specifications
        and msg_cl = msg_no_specifications]
      error_short_circuits [where U = ascii_tables and G = prose_gateway and J = example_loads
        and st = example_store and cs_an = "analyzed_state None" and trace = "[Load]"
        and msg_an = "msg_parse_failed (T ''Expecting value: line 1 column 1 (char 0)'')"
        and ss = "(specify_initial (T ''short''))\<lparr>sp_error := Some (T ''failed'')\<rparr>"]
      error_short_circuits [where U = ascii_tables and G = gateway_down
        and st = example_store and cs_up = "analyzed_state (Some [(99, T ''x'')])"
        and trace = "[Load, Analyze]" and msg_up = msg_no_answers]
    by simp
qed

lemma clarify_merge_answers: "cl_answers (clarify_merge s u) = cl_answers s"
  unfolding clarify_merge_def
proof (induction u arbitrary: s)
  case Nil
  then show ?case by simp
next
  case (Cons f u)
  then show ?case by (cases f) simp_all
qed

lemma no_update_without_answers:
  "\<not> truthy_answers (cl_answers s) \<Longrightarrow> should_continue_after_analyze s \<noteq> Update"
  by (simp add: should_continue_after_analyze_def)

lemma clarify_from_analyze_store:
  assumes "\<not> truthy_answers (cl_answers s)"
  shows "store_after (clarify_from_analyze U G J s st trace) = st"
proof (cases "analyze_and_generate_questions U G J s")
  case (Inl e)
  then show ?thesis by (simp add: clarify_from_analyze_def)
next
  case (Inr u)
  have "should_continue_after_analyze (clarify_merge s u) \<noteq> Update"
    using assms by (intro no_update_without_answers) (simp add: clarify_merge_answers)
  then show ?thesis
    using Inr by (simp add: clarify_from_analyze_def Let_def split: node.splits)
qed

lemma clarify_from_analyze_visited:
  assumes "\<not> truthy_answers (cl_answers s)"
  shows "visited (clarify_from_analyze U G J s st trace) = trace @ [Analyze]"
proof (cases "analyze_and_generate_questions U G J s")
  case (Inl e)
  then show ?thesis by (simp add: clarify_from_analyze_def)
next
  case (Inr u)
  have "should_continue_after_analyze (clarify_merge s u) \<noteq> Update"
    using assms by (intro no_update_without_answers) (simp add: clarify_merge_answers)
  then show ?thesis
    using Inr by (simp add: clarify_from_analyze_def Let_def split: node.splits)
qed

lemma run_clarify_store:
  assumes "\<not> truthy_answers a"
  shows "store_after (run_clarify U G J a st) = st
         \<and> set (visited (run_clarify U G J a st)) \<subseteq> {Load, Analyze}"
proof -
  let ?s1 = "clarify_merge (clarify_initial a)
               (clarify_load_specification U (clarify_initial a) st)"
  have n: "\<not> truthy_answers (cl_answers ?s1)"
    using assms by (simp add: clarify_merge_answers clarify_initial_def)
  have "store_after (clarify_from_analyze U G J ?s1 st [Load]) = st"
    using n by (rule clarify_from_analyze_store)
  moreover have "visited (clarify_from_analyze U G J ?s1 st [Load]) = [Load] @ [Analyze]"
    using n by (rule clarify_from_analyze_visited)
  ultimately show ?thesis
    by (simp add: run_clarify_def Let_def split: node.splits)
qed

text \<open>
  Claim C9 (phase 1 writes nothing). A run of the Clarify pipeline without an Answer Map
  leaves the store as it found it, whatever the store, the gateway and the decoder are and
  however the run ends (questions, an error in the state, or an exception); it never visits
  the update or the save node. The same holds for an empty Answer Map.
\<close>

theorem clarify_without_answers_writes_nothing:
  "store_after (run_clarify U G J None st) = st
   \<and> store_after (run_clarify U G J (Some []) st) = st
   \<and> Update \<notin> set (visited (run_clarify U G J None st))
   \<and> Save \<notin> set (visited (run_clarify U G J None st))"
proof -
  have a: "\<not> truthy_answers None" and b: "\<not> truthy_answers (Some [])"
    by (simp_all add: truthy_answers_def)
  show ?thesis
    using run_clarify_store [OF a, of U G J st] run_clarify_store [OF b, of U G J st]
    by auto
qed

section \<open>Properties of the Clarify analysis\<close>













lemma analyze_questions:
  assumes "\<not> truthy_str (cl_error s)" "G (AnalysisRequest (cl_specification s)) = Some r"
    "J (extract_json U r) = Inr (JObj kvs)"
  shows "analyze_and_generate_questions U G J s =
           Inr [CL_questions (case map_of kvs (T ''questions'') of Some q \<Rightarrow> q | None \<Rightarrow> JArr [])]"
  using assms by (simp add: analyze_and_generate_questions_def)

lemma clarify_no_questions_ends:
  assumes "\<not> truthy_str (cl_error s)"
    "analyze_and_generate_questions U G J s = Inr [CL_questions (JArr [])]"
  shows "clarify_from_analyze U G J s st trace =
           \<lparr>outcome = Inr (s\<lparr>cl_questions := JArr []\<rparr>), store_after = st,
            visited = trace @ [Analyze]\<rparr>"
  using assms
  by (simp add: clarify_from_analyze_def clarify_merge_def should_continue_after_analyze_def)













text \<open>
  Claim C10 (no \<open>questions\<close> key). When the payload decodes to an object without the
  key \<open>questions\<close>, the analysis sets no error: it returns the empty list of questions,
  and the run ends there as it does when no clarification is needed, with the error field
  as it was (empty), the store as it was, and no update node.
\<close>

theorem analyze_without_questions_key:
  "\<not> truthy_str (cl_error s) \<and> G (AnalysisRequest (cl_specification s)) = Some r
     \<and> J (extract_json U r) = Inr (JObj kvs) \<and> map_of kvs (T ''questions'') = None \<longrightarrow>
   analyze_and_generate_questions U G J s = Inr [CL_questions (JArr [])]
   \<and> clarify_from_analyze U G J s st trace =
       \<lparr>outcome = Inr (s\<lparr>cl_questions := JArr []\<rparr>), store_after = st,
        visited = trace @ [Analyze]\<rparr>
   \<and> \<not> truthy_str (cl_error (s\<lparr>cl_questions := JArr []\<rparr>))"
proof
  assume a: "\<not> truthy_str (cl_error s) \<and> G (AnalysisRequest (cl_specification s)) = Some r
     \<and> J (extract_json U r) = Inr (JObj kvs) \<and> map_of kvs (T ''questions'') = None"
  then have b: "analyze_and_generate_questions U G J s = Inr [CL_questions (JArr [])]"
    using analyze_questions [of s G r J U kvs] by simp
  with a show "analyze_and_generate_questions U G J s = Inr [CL_questions (JArr [])]
   \<and> clarify_from_analyze U G J s st trace =
       \<lparr>outcome = Inr (s\<lparr>cl_questions := JArr []\<rparr>), store_after = st,
        visited = trace @ [Analyze]\<rparr>
   \<and> \<not> truthy_str (cl_error (s\<lparr>cl_questions := JArr []\<rparr>))"
    by (simp add: clarify_no_questions_ends)
qed

text \<open>
  A gateway that answers \<^verbatim>\<open>{}\<close>: the run on \<open>example_store\<close> loads the specification,
  analyses it and ends without an error and with no questions.
\<close>

theorem analyze_without_questions_key_witness:
  "run_clarify ascii_tables empty_object_gateway example_loads (Some [(1, T ''yes'')])
     example_store =
     \<lparr>outcome = Inr \<lparr>cl_spec_path = Some (SpecPath (T ''001-login'')),
          cl_specification = T ''# Login'', cl_questions = JArr [],
          cl_answers = Some [(1, T ''yes'')], cl_updated_spec = [], cl_error = None\<rparr>,
      store_after = example_store, visited = [Load, Analyze]\<rparr>"
proof -
  let ?s = "\<lparr>cl_spec_path = Some (SpecPath (T ''001-login'')),
          cl_specification = T ''# Login'', cl_questions = JNull,
          cl_answers = Some [(1, T ''yes'')], cl_updated_spec = [], cl_error = None\<rparr>"
  have l: "clarify_merge (clarify_initial (Some [(1, T ''yes'')]))
      (clarify_load_specification ascii_tables (clarify_initial (Some [(1, T ''yes'')]))
         example_store) = ?s"
    by (simp add: clarify_load_specification_def find_latest_spec_def example_store_def
        clarify_merge_def clarify_initial_def T_def)
  have x: "extract_json ascii_tables (T ''{}'') = T ''{}''"
    by (simp add: extract_json_def py_contains_def py_find_def fence_json_def fence_def T_def)
  have j: "example_loads (T ''{}'') = Inr (JObj [])"
    by (simp add: example_loads_def payload_no_questions_def T_def)
  have "clarify_from_analyze ascii_tables empty_object_gateway example_loads ?s example_store
      [Load] =
      \<lparr>outcome = Inr (?s\<lparr>cl_questions := JArr []\<rparr>), store_after = example_store,
       visited = [Load] @ [Analyze]\<rparr>"
    using analyze_without_questions_key [where U = ascii_tables and G = empty_object_gateway
        and J = example_loads and s = ?s and r = "T ''{}''" and kvs = "[]"
        and st = example_store and trace = "[Load]"] x j
    by (simp add: truthy_str_def empty_object_gateway_def)
  then show ?thesis
    unfolding run_clarify_def l
    by (simp add: should_continue_after_load_def truthy_str_def)
qed

section \<open>Properties of the Clarify update\<close>

lemma key_question_id:
  "subscript q (T ''id'') = Inr v \<Longrightarrow> answer_key v = Inr k \<Longrightarrow> k = question_id q"
  by (cases q; cases v) (auto split: option.splits)

lemma subscript_question_text:
  "subscript q (T ''question'') = Inr t \<Longrightarrow> question_text q = Some t"
  by (cases q) (auto split: option.splits)

lemma build_qa_pairs_sound:
  "build_qa_pairs answers qs = Inr pairs \<Longrightarrow>
     map (\<lambda>p. Inr (qa_id p)) pairs =
       map (\<lambda>q. subscript q (T ''id'')) (filter (answered answers) qs)
     \<and> map (\<lambda>p. Inr (qa_question p)) pairs =
         map (\<lambda>q. subscript q (T ''question'')) (filter (answered answers) qs)
     \<and> map (\<lambda>p. Some (qa_answer p)) pairs =
         map (answer_of answers) (filter (answered answers) qs)"
proof (induction qs arbitrary: pairs)
  case Nil
  then show ?case by simp
next
  case (Cons q qs)
  from Cons.prems obtain v where v: "subscript q (T ''id'') = Inr v"
    by (cases "subscript q (T ''id'')") simp_all
  from Cons.prems v obtain k where k: "answer_key v = Inr k"
    by (cases "answer_key v") simp_all
  have kq: "k = question_id q" using v k by (rule key_question_id)
  have ao: "answer_of answers q = answer_for answers k"
    by (simp add: answer_of_def answer_for_def kq)
  show ?case
  proof (cases "answer_for answers k")
    case None
    then have "build_qa_pairs answers qs = Inr pairs" using Cons.prems v k by simp
    moreover have "\<not> answered answers q" using None ao by (simp add: answered_def)
    ultimately show ?thesis using Cons.IH [of pairs] by simp
  next
    case (Some ans)
    from Cons.prems v k Some obtain t where t: "subscript q (T ''question'') = Inr t"
      by (cases "subscript q (T ''question'')") simp_all
    from Cons.prems v k Some t obtain ps where ps: "build_qa_pairs answers qs = Inr ps"
      by (cases "build_qa_pairs answers qs") simp_all
    have p: "pairs = \<lparr>qa_id = v, qa_question = t, qa_answer = ans\<rparr> # ps"
      using Cons.prems v k Some t ps by simp
    have "answered answers q" and "answer_of answers q = Some ans"
      using Some ao by (simp_all add: answered_def)
    then show ?thesis using Cons.IH [OF ps] p v t by simp
  qed
qed

lemma build_qa_pairs_Nil_iff:
  assumes "build_qa_pairs answers qs = Inr pairs"
  shows "pairs = [] \<longleftrightarrow> filter (answered answers) qs = []"
proof -
  from build_qa_pairs_sound [OF assms]
  have "map (\<lambda>p. Some (qa_answer p)) pairs =
           map (answer_of answers) (filter (answered answers) qs)"
    by simp
  then have "length pairs = length (filter (answered answers) qs)"
    using map_eq_imp_length_eq by blast
  then show ?thesis by auto
qed

lemma well_formedE:
  assumes "well_formed q"
  obtains kvs v i t where "q = JObj kvs" "map_of kvs (T ''id'') = Some v"
    "answer_key v = Inr (Some i)" "map_of kvs (T ''question'') = Some t"
proof (cases q)
  case (JObj kvs)
  with assms obtain v i t where "map_of kvs (T ''id'') = Some v" "answer_key v = Inr (Some i)"
    "map_of kvs (T ''question'') = Some t"
    by (auto simp: well_formed_def split: option.splits json.splits)
  with JObj that show ?thesis by blast
qed (use assms in \<open>simp_all add: well_formed_def\<close>)

lemma build_qa_pairs_total:
  "list_all well_formed qs \<Longrightarrow> \<exists>pairs. build_qa_pairs answers qs = Inr pairs"
proof (induction qs)
  case Nil
  then show ?case by simp
next
  case (Cons q qs)
  then have "well_formed q" and "list_all well_formed qs" by simp_all
  from Cons.IH [OF this(2)] obtain ps where ps: "build_qa_pairs answers qs = Inr ps" by blast
  from \<open>well_formed q\<close> obtain kvs v i t where q: "q = JObj kvs"
    "map_of kvs (T ''id'') = Some v" "answer_key v = Inr (Some i)"
    "map_of kvs (T ''question'') = Some t"
    by (rule well_formedE)
  show ?case using q ps by (cases "map_of answers i") (simp_all add: answer_for_def)
qed

lemma update_reached:
  "should_continue_after_analyze s = Update \<Longrightarrow>
     \<not> truthy_str (cl_error s) \<and> truthy_answers (cl_answers s) \<and> truthy_json (cl_questions s)"
  by (simp add: should_continue_after_analyze_def split: if_splits)

lemma update_specification_list:
  assumes "\<not> truthy_str (cl_error s)" "truthy_answers (cl_answers s)"
    "cl_answers s = Some answers" "cl_questions s = JArr qs"
  shows "update_specification U G s =
    (case build_qa_pairs answers qs of
       Inl e \<Rightarrow> Inl e
     | Inr pairs \<Rightarrow>
         if pairs = [] then Inr [CL_error (Some msg_no_answers)]
         else (case G (UpdateRequest (cl_specification s) pairs) of
                 None \<Rightarrow> Inl GatewayError
               | Some updated_spec \<Rightarrow> Inr [CL_updated_spec (strip_fences U updated_spec)]))"
  using assms by (simp add: update_specification_def)

text \<open>
  Claim C4 (the update step). The graph routes a state to the update step only when it
  has no error and a non-empty Answer Map. The loop over a list of questions, when it
  raises nothing, builds exactly one pair for each question whose id is a key of the Answer
  Map, in the order of the questions, with the question's id, its text and the answer
  stored under the id; the other questions are dropped. It raises nothing on questions of
  the Clarification Question shape. On every state that reaches the step, an empty list of
  pairs makes the step set the error \<^verbatim>\<open>No answers provided to update specification\<close>; a
  non-empty one is sent to the gateway, and the step returns the response without its
  fence; an exception of the loop leaves the step.
\<close>

theorem update_builds_answered_pairs:
  "(build_qa_pairs answers qs = Inr pairs \<longrightarrow>
      map (\<lambda>p. Inr (qa_id p)) pairs =
        map (\<lambda>q. subscript q (T ''id'')) (filter (answered answers) qs)
      \<and> map (\<lambda>p. Inr (qa_question p)) pairs =
          map (\<lambda>q. subscript q (T ''question'')) (filter (answered answers) qs)
      \<and> map (\<lambda>p. Some (qa_answer p)) pairs =
          map (answer_of answers) (filter (answered answers) qs)
      \<and> length pairs = length (filter (answered answers) qs))
   \<and> (list_all well_formed qs \<longrightarrow> (\<exists>built. build_qa_pairs answers qs = Inr built))
   \<and> (should_continue_after_analyze s = Update \<longrightarrow>
      \<not> truthy_str (cl_error s) \<and> truthy_answers (cl_answers s)
      \<and> truthy_json (cl_questions s))
   \<and> (should_continue_after_analyze s = Update \<and> cl_answers s = Some answers
        \<and> cl_questions s = JArr qs \<and> build_qa_pairs answers qs = Inr [] \<longrightarrow>
      update_specification U G s = Inr [CL_error (Some msg_no_answers)])
   \<and> (\<not> truthy_str (cl_error s) \<and> truthy_answers (cl_answers s)
        \<and> cl_answers s = Some answers \<and> cl_questions s = JArr qs
        \<and> build_qa_pairs answers qs = Inr [] \<longrightarrow>
      update_specification U G s = Inr [CL_error (Some msg_no_answers)])
   \<and> (\<not> truthy_str (cl_error s) \<and> truthy_answers (cl_answers s)
        \<and> cl_answers s = Some answers \<and> cl_questions s = JArr qs
        \<and> build_qa_pairs answers qs = Inr pairs \<and> pairs \<noteq> [] \<longrightarrow>
      update_specification U G s =
        (case G (UpdateRequest (cl_specification s) pairs) of
           None \<Rightarrow> Inl GatewayError
         | Some updated_spec \<Rightarrow> Inr [CL_updated_spec (strip_fences U updated_spec)]))
   \<and> (\<not> truthy_str (cl_error s) \<and> truthy_answers (cl_answers s)
        \<and> cl_answers s = Some answers \<and> cl_questions s = JArr qs
        \<and> build_qa_pairs answers qs = Inl e \<longrightarrow>
      update_specification U G s = Inl e)"
proof -
  have a: "build_qa_pairs answers qs = Inr pairs \<longrightarrow>
      map (\<lambda>p. Inr (qa_id p)) pairs =
        map (\<lambda>q. subscript q (T ''id'')) (filter (answered answers) qs)
      \<and> map (\<lambda>p. Inr (qa_question p)) pairs =
          map (\<lambda>q. subscript q (T ''question'')) (filter (answered answers) qs)
      \<and> map (\<lambda>p. Some (qa_answer p)) pairs =
          map (answer_of answers) (filter (answered answers) qs)
      \<and> length pairs = length (filter (answered answers) qs)"
  proof
    assume b: "build_qa_pairs answers qs = Inr pairs"
    from build_qa_pairs_sound [OF b]
    have m: "map (\<lambda>p. Some (qa_answer p)) pairs =
           map (answer_of answers) (filter (answered answers) qs)" by simp
    then have "length pairs = length (filter (answered answers) qs)"
      using map_eq_imp_length_eq by blast
    with build_qa_pairs_sound [OF b]
    show "map (\<lambda>p. Inr (qa_id p)) pairs =
        map (\<lambda>q. subscript q (T ''id'')) (filter (answered answers) qs)
      \<and> map (\<lambda>p. Inr (qa_question p)) pairs =
          map (\<lambda>q. subscript q (T ''question'')) (filter (answered answers) qs)
      \<and> map (\<lambda>p. Some (qa_answer p)) pairs =
          map (answer_of answers) (filter (answered answers) qs)
      \<and> length pairs = length (filter (answered answers) qs)"
      by simp
  qed
  have b: "list_all well_formed qs \<longrightarrow> (\<exists>built. build_qa_pairs answers qs = Inr built)"
    using build_qa_pairs_total [of qs answers] by blast
  have c: "should_continue_after_analyze s = Update \<longrightarrow>
      \<not> truthy_str (cl_error s) \<and> truthy_answers (cl_answers s)
      \<and> truthy_json (cl_questions s)"
    using update_reached [of s] by blast
  have d: "update_specification U G s = Inr [CL_error (Some msg_no_answers)]"
    if "\<not> truthy_str (cl_error s)" "truthy_answers (cl_answers s)"
      "cl_answers s = Some answers" "cl_questions s = JArr qs"
      "build_qa_pairs answers qs = Inr []"
    using that by (simp add: update_specification_list)
  have f: "update_specification U G s =
        (case G (UpdateRequest (cl_specification s) pairs) of
           None \<Rightarrow> Inl GatewayError
         | Some updated_spec \<Rightarrow> Inr [CL_updated_spec (strip_fences U updated_spec)])"
    if "\<not> truthy_str (cl_error s)" "truthy_answers (cl_answers s)"
      "cl_answers s = Some answers" "cl_questions s = JArr qs"
      "build_qa_pairs answers qs = Inr pairs" "pairs \<noteq> []"
    using that by (simp add: update_specification_list)
  have g: "update_specification U G s = Inl e"
    if "\<not> truthy_str (cl_error s)" "truthy_answers (cl_answers s)"
      "cl_answers s = Some answers" "cl_questions s = JArr qs"
      "build_qa_pairs answers qs = Inl e"
    using that by (simp add: update_specification_list)
  have d': "update_specification U G s = Inr [CL_error (Some msg_no_answers)]"
    if "should_continue_after_analyze s = Update" "cl_answers s = Some answers"
      "cl_questions s = JArr qs" "build_qa_pairs answers qs = Inr []"
    using that update_reached [of s] d by blast
  show ?thesis using a b c d d' f g by blast
qed

text \<open>
  The guard of the step: a state without answers gets the empty dictionary. The graph
  routes no such state to the step.
\<close>

lemma update_specification_without_answers:
  "\<not> truthy_answers (cl_answers s) \<Longrightarrow> update_specification U G s = Inr []"
  by (simp add: update_specification_def)

text \<open>
  Against the questions 1 and 2, the Answer Map \<^verbatim>\<open>{1: "yes"}\<close> gives exactly the pair of
  question 1, and the Answer Map \<^verbatim>\<open>{99: "x"}\<close> gives the error. Both states are routed to
  the update step.
\<close>

theorem update_builds_answered_pairs_witness:
  "should_continue_after_analyze (analyzed_state (Some [(1, T ''yes'')])) = Update
   \<and> should_continue_after_analyze (analyzed_state (Some [(99, T ''x'')])) = Update
   \<and> list_all well_formed two_questions
   \<and> build_qa_pairs [(1, T ''yes'')] two_questions =
       Inr [\<lparr>qa_id = JInt 1, qa_question = JStr (T ''Is login required?''),
             qa_answer = T ''yes''\<rparr>]
   \<and> filter (answered [(1, T ''yes'')]) two_questions = [question 1 (T ''Is login required?'')]
   \<and> build_qa_pairs [(99, T ''x'')] two_questions = Inr []
   \<and> update_specification ascii_tables gateway_down (analyzed_state (Some [(99, T ''x'')])) =
       Inr [CL_error (Some msg_no_answers)]
   \<and> update_specification ascii_tables prose_gateway (analyzed_state (Some [(1, T ''yes'')])) =
       Inr [CL_updated_spec (T ''no json here'')]"
proof -
  have r: "should_continue_after_analyze (analyzed_state (Some [(1, T ''yes'')])) = Update"
    "should_continue_after_analyze (analyzed_state (Some [(99, T ''x'')])) = Update"
    by (simp_all add: should_continue_after_analyze_def analyzed_state_def truthy_str_def
        truthy_answers_def two_questions_def)
  have w: "list_all well_formed two_questions"
    by (simp add: two_questions_def question_def well_formed_def T_def)
  have b: "build_qa_pairs [(1, T ''yes'')] two_questions =
       Inr [\<lparr>qa_id = JInt 1, qa_question = JStr (T ''Is login required?''),
             qa_answer = T ''yes''\<rparr>]"
    by (simp add: two_questions_def question_def answer_for_def T_def)
  have b2: "build_qa_pairs [(99, T ''x'')] two_questions = Inr []"
    by (simp add: two_questions_def question_def answer_for_def T_def)
  have f1: "filter (answered [(1, T ''yes'')]) two_questions =
      [question 1 (T ''Is login required?'')]"
    by (simp add: two_questions_def question_def answered_def answer_of_def T_def)
  have s: "\<not> truthy_str (cl_error (analyzed_state a))" "cl_answers (analyzed_state a) = a"
    "cl_questions (analyzed_state a) = JArr two_questions" for a
    by (simp_all add: analyzed_state_def truthy_str_def)
  have ta: "truthy_answers (Some [(1, T ''yes'')])"
    by (simp add: truthy_answers_def)
  have g: "strip_fences ascii_tables (T ''no json here'') = T ''no json here''"
    by (simp add: strip_fences_def fence_markdown_def fence_def T_def py_strip_def
        strip_chars_def is_space_def is_ascii_def)
  have u1: "update_specification ascii_tables gateway_down
      (analyzed_state (Some [(99, T ''x'')])) = Inr [CL_error (Some msg_no_answers)]"
    using update_builds_answered_pairs [where U = ascii_tables and G = gateway_down
        and s = "analyzed_state (Some [(99, T ''x'')])" and answers = "[(99, T ''x'')]"
        and qs = two_questions] r b2 s
    by simp
  have u2: "update_specification ascii_tables prose_gateway
      (analyzed_state (Some [(1, T ''yes'')])) = Inr [CL_updated_spec (T ''no json here'')]"
    using update_builds_answered_pairs [where U = ascii_tables and G = prose_gateway
        and s = "analyzed_state (Some [(1, T ''yes'')])" and answers = "[(1, T ''yes'')]"
        and qs = two_questions
        and pairs = "[\<lparr>qa_id = JInt 1, qa_question = JStr (T ''Is login required?''),
             qa_answer = T ''yes''\<rparr>]"] b s g ta
    by (simp add: prose_gateway_def)
  show ?thesis using r w b b2 f1 u1 u2 by simp
qed

end
